theory Spec2Isabelle
  imports Complex_Main "HOL-Library.Monad_Syntax"
begin

section \<open>JavaScript values\<close>

text \<open>
  The payload is whatever \<^verbatim>\<open>JSON.parse\<close> returns, so every position may hold any JSON
  value. Numbers: a finite JavaScript number is an IEEE 754 double, modelled by the real
  number that it denotes, next to the three non-finite values; the arithmetic operators
  round their exact result to the nearest double (\<open>rd\<close> below) and overflow to an
  infinity. The two zeros are identified: the source never divides by a zero that could be
  negative, and prints, compares and tests both alike. Strings: a JavaScript string is
  modelled by its UTF-8 bytes; the non-ASCII characters of the source are written out as
  bytes below, and the operations that count UTF-16 units are parameters. Objects: the
  association list of a parsed object, whose keys are distinct. \<open>Builtin\<close> is a native
  function object: reading \<^verbatim>\<open>.values\<close> from an array yields
  \<^verbatim>\<open>Array.prototype.values\<close>.
\<close>

datatype jsnum = Fin real | NaN | PInf | NInf

datatype jsval =
    Undefined
  | Null
  | Bool bool
  | Num jsnum
  | Str string
  | Arr "jsval list"
  | Obj "(string \<times> jsval) list"
  | Builtin

text \<open>
  What the language leaves to the engine, or what the byte model of strings cannot
  compute, is a parameter: the parser behind \<^verbatim>\<open>Number(string)\<close>; the printer of the
  numbers that are no integers below \<open>2^53\<close>; \<^verbatim>\<open>String.prototype.toUpperCase\<close>;
  \<^verbatim>\<open>Math.log10\<close> of a positive finite number and \<^verbatim>\<open>Math.pow(10, e)\<close> for a finite
  \<open>e \<noteq> 0\<close>, both of which the standard calls implementation-approximated; the order in
  which \<^verbatim>\<open>Array.prototype.sort\<close> leaves the path edges when their comparator is not
  consistent, which the standard calls implementation-defined; and of a string its
  \<^verbatim>\<open>length\<close>, its unit \<^verbatim>\<open>s[i]\<close> and its prefix \<^verbatim>\<open>s.slice(0, n)\<close>, counted in
  UTF-16 units.
\<close>

record runtime =
  StringToNumber :: "string \<Rightarrow> jsnum"
  NumberToString :: "real \<Rightarrow> string"
  toUpperCase :: "string \<Rightarrow> string"
  Log10 :: "real \<Rightarrow> jsnum"
  Pow10 :: "real \<Rightarrow> jsnum"
  ImplSort :: "jsval list \<Rightarrow> jsval list"
  units :: "string \<Rightarrow> nat"
  unitAt :: "string \<Rightarrow> nat \<Rightarrow> string"
  sliceTo :: "string \<Rightarrow> nat \<Rightarrow> string"

definition emdash :: string where
  "emdash = [CHR 0xE2, CHR 0x80, CHR 0x94]"

definition rarrow :: string where
  "rarrow = [CHR 0xE2, CHR 0x86, CHR 0x92]"

definition endash :: string where
  "endash = [CHR 0xE2, CHR 0x80, CHR 0x93]"

definition bullet :: string where
  "bullet = [CHR 0xE2, CHR 0x80, CHR 0xA2]"

definition ellipsis :: string where
  "ellipsis = [CHR 0xE2, CHR 0x80, CHR 0xA6]"

subsection \<open>Doubles\<close>

text \<open>The number of binary digits of a natural number.\<close>

function bits :: "nat \<Rightarrow> nat" where
  "bits n = (if n < 2 then 1 else Suc (bits (n div 2)))"
  by pat_completeness auto
termination
  by (relation "measure id") auto

declare bits.simps [simp del]

text \<open>
  The binary exponent \<open>\<lfloor>log\<^sub>2 x\<rfloor>\<close> of a positive \<open>x\<close>: from the number of binary digits
  of \<open>\<lfloor>x\<rfloor>\<close> when \<open>x \<ge> 1\<close>, and of \<open>\<lceil>1/x\<rceil> - 1\<close> below.
\<close>

definition ilog2 :: "real \<Rightarrow> int" where
  "ilog2 x =
     (if x \<ge> 1 then int (bits (nat \<lfloor>x\<rfloor>)) - 1
      else - int (bits (nat \<lceil>1 / x\<rceil> - 1)))"

definition twoTo :: "int \<Rightarrow> real" where
  "twoTo k = (if k \<ge> 0 then 2 ^ nat k else 1 / 2 ^ nat (- k))"

text \<open>The nearest integer, the even one at a tie.\<close>

definition round_even :: "real \<Rightarrow> int" where
  "round_even m =
     (let f = \<lfloor>m\<rfloor>; d = m - of_int f
      in if d < 1 / 2 then f else if d > 1 / 2 then f + 1 else if even f then f else f + 1)"

definition signed_inf :: "real \<Rightarrow> jsnum" where
  "signed_inf s = (if s < 0 then NInf else PInf)"

text \<open>
  Rounding of an exact result to a double, to nearest and to even at a tie. A double is
  a multiple \<open>n * 2^q\<close> with \<open>n < 2^53\<close> and \<open>q \<ge> -1074\<close>; the largest is
  \<open>2^1024 - 2^971\<close>, and what lies at or above the midpoint \<open>2^1024 - 2^970\<close> to the
  next power of two becomes an infinity. Below \<open>2^-1022\<close> the doubles are the multiples
  of \<open>2^-1074\<close>.
\<close>

definition rd :: "real \<Rightarrow> jsnum" where
  "rd x =
     (if x = 0 then Fin 0
      else if \<bar>x\<bar> \<ge> 2 ^ 1024 - 2 ^ 970 then signed_inf x
      else
        let q = (if \<bar>x\<bar> < 1 / 2 ^ 1022 then - 1074 else ilog2 \<bar>x\<bar> - 52)
        in Fin (sgn x * (of_int (round_even (\<bar>x\<bar> / twoTo q)) * twoTo q)))"

text \<open>The reals that are doubles.\<close>

definition is_double :: "real \<Rightarrow> bool" where
  "is_double r = (rd r = Fin r)"

subsection \<open>Numbers\<close>

definition digit :: "nat \<Rightarrow> char" where
  "digit d = ''0123456789'' ! d"

function decimal :: "nat \<Rightarrow> string" where
  "decimal n = (if n < 10 then [digit n] else decimal (n div 10) @ [digit (n mod 10)])"
  by pat_completeness auto
termination
  by (relation "measure id") auto

declare decimal.simps [simp del]

definition is_integer :: "real \<Rightarrow> bool" where
  "is_integer r = (r = of_int \<lfloor>r\<rfloor>)"

text \<open>
  \<^verbatim>\<open>String(num)\<close> for a number. An integer below \<open>2^53\<close> prints its digits; the
  shortest digits that read back as the same double, which every other number prints,
  are the parameter's.
\<close>

definition numToString :: "runtime \<Rightarrow> jsnum \<Rightarrow> string" where
  "numToString rt x =
     (case x of
        NaN \<Rightarrow> ''NaN''
      | PInf \<Rightarrow> ''Infinity''
      | NInf \<Rightarrow> ''-Infinity''
      | Fin r \<Rightarrow>
          if is_integer r \<and> \<bar>r\<bar> < 2 ^ 53
          then (if r < 0 then ''-'' else '''') @ decimal (nat \<lfloor>\<bar>r\<bar>\<rfloor>)
          else NumberToString rt r)"

text \<open>
  \<^verbatim>\<open>num.toFixed(d)\<close>: the sign, then the integer \<open>n\<close> with \<open>n / 10^d\<close> nearest to
  \<open>|num|\<close> (the larger one at a tie), printed with \<open>d\<close> digits after the point. The
  standard defines \<open>n\<close> on the exact value of the double, so nothing is rounded here.
\<close>

definition toFixed :: "runtime \<Rightarrow> nat \<Rightarrow> jsnum \<Rightarrow> string" where
  "toFixed rt d x =
     (case x of
        NaN \<Rightarrow> ''NaN''
      | PInf \<Rightarrow> ''Infinity''
      | NInf \<Rightarrow> ''-Infinity''
      | Fin r \<Rightarrow>
          (if r < 0 then ''-'' else '''') @
          (if \<bar>r\<bar> \<ge> 10 ^ 21 then numToString rt (Fin \<bar>r\<bar>)
           else
             let m = decimal (nat \<lfloor>\<bar>r\<bar> * 10 ^ d + 1 / 2\<rfloor>);
                 p = replicate (d + 1 - length m) (CHR ''0'') @ m;
                 k = length p - d
             in if d = 0 then m else take k p @ ''.'' @ drop k p))"

fun num_add :: "jsnum \<Rightarrow> jsnum \<Rightarrow> jsnum" where
  "num_add (Fin a) (Fin b) = rd (a + b)"
| "num_add NaN _ = NaN"
| "num_add _ NaN = NaN"
| "num_add PInf NInf = NaN"
| "num_add NInf PInf = NaN"
| "num_add PInf _ = PInf"
| "num_add _ PInf = PInf"
| "num_add NInf _ = NInf"
| "num_add _ NInf = NInf"

fun num_neg :: "jsnum \<Rightarrow> jsnum" where
  "num_neg (Fin a) = Fin (- a)"
| "num_neg NaN = NaN"
| "num_neg PInf = NInf"
| "num_neg NInf = PInf"

definition num_sub :: "jsnum \<Rightarrow> jsnum \<Rightarrow> jsnum" where
  "num_sub a b = num_add a (num_neg b)"

text \<open>The sign of a number that is not \<open>NaN\<close>, for products and quotients.\<close>

fun num_sgn :: "jsnum \<Rightarrow> real" where
  "num_sgn (Fin a) = sgn a"
| "num_sgn PInf = 1"
| "num_sgn NInf = - 1"
| "num_sgn NaN = 0"

fun num_mul :: "jsnum \<Rightarrow> jsnum \<Rightarrow> jsnum" where
  "num_mul (Fin a) (Fin b) = rd (a * b)"
| "num_mul NaN _ = NaN"
| "num_mul _ NaN = NaN"
| "num_mul a b =
     (if num_sgn a = 0 \<or> num_sgn b = 0 then NaN else signed_inf (num_sgn a * num_sgn b))"

fun num_div :: "jsnum \<Rightarrow> jsnum \<Rightarrow> jsnum" where
  "num_div NaN _ = NaN"
| "num_div _ NaN = NaN"
| "num_div (Fin a) (Fin b) =
     (if b \<noteq> 0 then rd (a / b) else if a = 0 then NaN else signed_inf a)"
| "num_div (Fin a) _ = Fin 0"
| "num_div a (Fin b) = signed_inf (num_sgn a * (if b < 0 then - 1 else 1))"
| "num_div _ _ = NaN"

text \<open>
  \<^verbatim>\<open>a % b\<close>: the remainder has the sign of the dividend; it is a double, so nothing is
  rounded.
\<close>

fun num_mod :: "jsnum \<Rightarrow> jsnum \<Rightarrow> jsnum" where
  "num_mod (Fin a) (Fin b) =
     (if b = 0 then NaN else Fin (sgn a * (\<bar>a\<bar> - \<bar>b\<bar> * of_int \<lfloor>\<bar>a\<bar> / \<bar>b\<bar>\<rfloor>)))"
| "num_mod (Fin a) PInf = Fin a"
| "num_mod (Fin a) NInf = Fin a"
| "num_mod _ _ = NaN"

fun num_less :: "jsnum \<Rightarrow> jsnum \<Rightarrow> bool" where
  "num_less (Fin a) (Fin b) = (a < b)"
| "num_less NaN _ = False"
| "num_less _ NaN = False"
| "num_less _ NInf = False"
| "num_less PInf _ = False"
| "num_less _ _ = True"

definition num_le :: "jsnum \<Rightarrow> jsnum \<Rightarrow> bool" where
  "num_le a b = (a \<noteq> NaN \<and> b \<noteq> NaN \<and> (a = b \<or> num_less a b))"

definition num_ge :: "jsnum \<Rightarrow> jsnum \<Rightarrow> bool" where
  "num_ge a b = num_le b a"

definition num_gt :: "jsnum \<Rightarrow> jsnum \<Rightarrow> bool" where
  "num_gt a b = num_less b a"

text \<open>
  \<^verbatim>\<open>Math.round\<close> rounds to the nearest integer, a tie towards \<open>+\<infinity>\<close>;
  \<^verbatim>\<open>Math.ceil\<close> and \<^verbatim>\<open>Math.floor\<close>. Their results are doubles.
\<close>

fun Math_round :: "jsnum \<Rightarrow> jsnum" where
  "Math_round (Fin a) = Fin (of_int \<lfloor>a + 1 / 2\<rfloor>)"
| "Math_round x = x"

fun Math_ceil :: "jsnum \<Rightarrow> jsnum" where
  "Math_ceil (Fin a) = Fin (of_int \<lceil>a\<rceil>)"
| "Math_ceil x = x"

fun Math_floor :: "jsnum \<Rightarrow> jsnum" where
  "Math_floor (Fin a) = Fin (of_int \<lfloor>a\<rfloor>)"
| "Math_floor x = x"

subsection \<open>Conversions\<close>

definition intercalate :: "string \<Rightarrow> string list \<Rightarrow> string" where
  "intercalate sep xs = (case xs of [] \<Rightarrow> [] | y # ys \<Rightarrow> y @ concat (map (\<lambda>s. sep @ s) ys))"

text \<open>
  \<^verbatim>\<open>String(v)\<close>, which is also what a template literal, string concatenation and a
  property key apply. An array is joined with commas, \<^verbatim>\<open>null\<close> and \<^verbatim>\<open>undefined\<close>
  elements printing as nothing. A parsed object prints as \<^verbatim>\<open>[object Object]\<close> through
  the \<^verbatim>\<open>toString\<close> that it inherits; when it has a key \<^verbatim>\<open>toString\<close> of its own, the
  value there is no function, the inherited \<^verbatim>\<open>valueOf\<close> (or an own one) yields no
  primitive either, and the conversion throws a \<^verbatim>\<open>TypeError\<close>: the value \<open>None\<close>.
\<close>

fun toStr :: "runtime \<Rightarrow> jsval \<Rightarrow> string option" where
  "toStr rt Undefined = Some ''undefined''"
| "toStr rt Null = Some ''null''"
| "toStr rt (Bool b) = Some (if b then ''true'' else ''false'')"
| "toStr rt (Num x) = Some (numToString rt x)"
| "toStr rt (Str s) = Some s"
| "toStr rt (Arr xs) =
     map_option (intercalate '','')
       (those (map (\<lambda>x. if x = Undefined \<or> x = Null then Some '''' else toStr rt x) xs))"
| "toStr rt (Obj kvs) =
     (if map_of kvs ''toString'' = None then Some ''[object Object]'' else None)"
| "toStr rt Builtin = Some ''function values() { [native code] }''"

text \<open>
  \<^verbatim>\<open>Number(v)\<close>, which the arithmetic and the relational operators apply; arrays and
  objects go through their string form.
\<close>

fun toNum :: "runtime \<Rightarrow> jsval \<Rightarrow> jsnum option" where
  "toNum rt Undefined = Some NaN"
| "toNum rt Null = Some (Fin 0)"
| "toNum rt (Bool b) = Some (Fin (if b then 1 else 0))"
| "toNum rt (Num x) = Some x"
| "toNum rt (Str s) = Some (StringToNumber rt s)"
| "toNum rt v = map_option (StringToNumber rt) (toStr rt v)"

fun truthy :: "jsval \<Rightarrow> bool" where
  "truthy Undefined = False"
| "truthy Null = False"
| "truthy (Bool b) = b"
| "truthy (Num x) = (x \<noteq> NaN \<and> x \<noteq> Fin 0)"
| "truthy (Str s) = (s \<noteq> [])"
| "truthy _ = True"

definition nullish :: "jsval \<Rightarrow> bool" where
  "nullish v = (v = Undefined \<or> v = Null)"

text \<open>\<^verbatim>\<open>a || b\<close> and \<^verbatim>\<open>a ?? b\<close> on values already computed.\<close>

definition js_or :: "jsval \<Rightarrow> jsval \<Rightarrow> jsval" where
  "js_or a b = (if truthy a then a else b)"

definition js_coalesce :: "jsval \<Rightarrow> jsval \<Rightarrow> jsval" where
  "js_coalesce a b = (if nullish a then b else a)"

definition is_stringy :: "jsval \<Rightarrow> bool" where
  "is_stringy v = (case v of Str _ \<Rightarrow> True | Arr _ \<Rightarrow> True | Obj _ \<Rightarrow> True | Builtin \<Rightarrow> True
                   | _ \<Rightarrow> False)"

text \<open>
  \<^verbatim>\<open>a + b\<close>: when either operand is a string, or an array or object (whose primitive
  is its string form), the strings are concatenated; otherwise the numbers are added.
  It throws when an operand has no primitive.
\<close>

definition js_add :: "runtime \<Rightarrow> jsval \<Rightarrow> jsval \<Rightarrow> jsval option" where
  "js_add rt a b =
     (if is_stringy a \<or> is_stringy b
      then do { x \<leftarrow> toStr rt a; y \<leftarrow> toStr rt b; Some (Str (x @ y)) }
      else do { x \<leftarrow> toNum rt a; y \<leftarrow> toNum rt b; Some (Num (num_add x y)) })"

text \<open>\<^verbatim>\<open>v > 0\<close>\<close>

definition positive :: "runtime \<Rightarrow> jsval \<Rightarrow> bool option" where
  "positive rt v = map_option (\<lambda>n. num_gt n (Fin 0)) (toNum rt v)"

section \<open>Numeric formatters\<close>

text \<open>\<^verbatim>\<open>formatNumber\<close> of the normalizer: always one decimal above a thousand.\<close>

definition formatNumber :: "runtime \<Rightarrow> jsval \<Rightarrow> string option" where
  "formatNumber rt n =
     do { num \<leftarrow> toNum rt n;
          if num = NaN then toStr rt n
          else if num_ge num (Fin 1000000)
            then Some (toFixed rt 1 (num_div num (Fin 1000000)) @ ''M'')
          else if num_ge num (Fin 1000)
            then Some (toFixed rt 1 (num_div num (Fin 1000)) @ ''K'')
          else Some (numToString rt num) }"

text \<open>\<^verbatim>\<open>formatAxisNum\<close> of the renderers: no decimal at an exact multiple.\<close>

definition formatAxisNum :: "runtime \<Rightarrow> jsval \<Rightarrow> string option" where
  "formatAxisNum rt n =
     do { num \<leftarrow> toNum rt n;
          if num = NaN then toStr rt n
          else if num_ge num (Fin 1000000)
            then Some (toFixed rt (if num_mod num (Fin 1000000) = Fin 0 then 0 else 1)
                         (num_div num (Fin 1000000)) @ ''M'')
          else if num_ge num (Fin 1000)
            then Some (toFixed rt (if num_mod num (Fin 1000) = Fin 0 then 0 else 1)
                         (num_div num (Fin 1000)) @ ''K'')
          else Some (numToString rt num) }"

section \<open>Reading the payload\<close>

text \<open>
  \<^verbatim>\<open>o.k\<close>: a \<^verbatim>\<open>TypeError\<close> (the value \<open>None\<close>) on \<^verbatim>\<open>null\<close> and
  \<^verbatim>\<open>undefined\<close>, the own property of an object, and \<^verbatim>\<open>undefined\<close> elsewhere.
  The source reads the names \<^verbatim>\<open>insight tiles name derived_name result query_status
  results filters query source kind display trendsFilter chartSettings count data label
  labels values aggregated_value edge_weight target\<close>; of the prototypes of arrays,
  strings, numbers and booleans only \<^verbatim>\<open>Array.prototype.values\<close> carries one of them,
  and a function has a \<^verbatim>\<open>name\<close>.
\<close>

fun getp :: "jsval \<Rightarrow> string \<Rightarrow> jsval option" where
  "getp Undefined k = None"
| "getp Null k = None"
| "getp (Obj kvs) k = Some (case map_of kvs k of None \<Rightarrow> Undefined | Some v \<Rightarrow> v)"
| "getp (Arr xs) k = Some (if k = ''values'' then Builtin else Undefined)"
| "getp Builtin k = Some (if k = ''name'' then Str ''values'' else Undefined)"
| "getp v k = Some Undefined"

text \<open>\<^verbatim>\<open>o?.k\<close> never throws.\<close>

definition opt_get :: "jsval \<Rightarrow> string \<Rightarrow> jsval" where
  "opt_get v k = (case getp v k of None \<Rightarrow> Undefined | Some x \<Rightarrow> x)"

text \<open>
  \<^verbatim>\<open>o[i]\<close> for a number \<open>i\<close>, where the source has made sure that \<open>o\<close> is neither
  \<^verbatim>\<open>null\<close> nor \<^verbatim>\<open>undefined\<close> (or uses \<^verbatim>\<open>?.[i]\<close>). A string yields its
  \<open>i\<close>-th unit.
\<close>

fun index :: "runtime \<Rightarrow> jsval \<Rightarrow> nat \<Rightarrow> jsval" where
  "index rt (Arr xs) i = (if i < length xs then xs ! i else Undefined)"
| "index rt (Str s) i = (if i < units rt s then Str (unitAt rt s i) else Undefined)"
| "index rt (Obj kvs) i = (case map_of kvs (decimal i) of None \<Rightarrow> Undefined | Some v \<Rightarrow> v)"
| "index rt v i = Undefined"

definition startsWith :: "string \<Rightarrow> string \<Rightarrow> bool" where
  "startsWith s pat = (take (length pat) s = pat)"

fun str_includes :: "string \<Rightarrow> string \<Rightarrow> bool" where
  "str_includes [] pat = (pat = [])"
| "str_includes (c # cs) pat = (startsWith (c # cs) pat \<or> str_includes cs pat)"

text \<open>
  \<^verbatim>\<open>kind.includes(pat)\<close>: strings and arrays have the method, every other value
  throws (\<^verbatim>\<open>kind.includes is not a function\<close>).
\<close>

fun js_includes :: "jsval \<Rightarrow> string \<Rightarrow> bool option" where
  "js_includes (Str s) pat = Some (str_includes s pat)"
| "js_includes (Arr xs) pat = Some (Str pat \<in> set xs)"
| "js_includes v pat = None"

definition either_includes :: "jsval \<Rightarrow> string \<Rightarrow> string \<Rightarrow> bool option" where
  "either_includes kind a b =
     do { x \<leftarrow> js_includes kind a; if x then Some True else js_includes kind b }"

fun mapM :: "('a \<Rightarrow> 'b option) \<Rightarrow> 'a list \<Rightarrow> 'b list option" where
  "mapM f [] = Some []"
| "mapM f (x # xs) = do { y \<leftarrow> f x; ys \<leftarrow> mapM f xs; Some (y # ys) }"

fun filterM :: "('a \<Rightarrow> bool option) \<Rightarrow> 'a list \<Rightarrow> 'a list option" where
  "filterM f [] = Some []"
| "filterM f (x # xs) =
     do { b \<leftarrow> f x; ys \<leftarrow> filterM f xs; Some (if b then x # ys else ys) }"

fun reduceM :: "('b \<Rightarrow> 'a \<Rightarrow> 'b option) \<Rightarrow> 'b \<Rightarrow> 'a list \<Rightarrow> 'b option" where
  "reduceM f acc [] = Some acc"
| "reduceM f acc (x # xs) = do { acc' \<leftarrow> f acc x; reduceM f acc' xs }"

fun mapMi :: "nat \<Rightarrow> (nat \<Rightarrow> 'a \<Rightarrow> 'b option) \<Rightarrow> 'a list \<Rightarrow> 'b list option" where
  "mapMi i f [] = Some []"
| "mapMi i f (x # xs) = do { y \<leftarrow> f i x; ys \<leftarrow> mapMi (Suc i) f xs; Some (y # ys) }"

text \<open>
  \<^verbatim>\<open>Array.prototype.sort\<close> with a comparator is stable; \<open>after a b\<close> says that the
  comparator is positive on \<open>(a, b)\<close>. Where the comparator orders the elements
  consistently the result is determined, and insertion sort computes it.
\<close>

fun insert_sorted :: "('a \<Rightarrow> 'a \<Rightarrow> bool) \<Rightarrow> 'a \<Rightarrow> 'a list \<Rightarrow> 'a list" where
  "insert_sorted after x [] = [x]"
| "insert_sorted after x (y # ys) =
     (if after x y then y # insert_sorted after x ys else x # y # ys)"

definition stable_sort :: "('a \<Rightarrow> 'a \<Rightarrow> bool) \<Rightarrow> 'a list \<Rightarrow> 'a list" where
  "stable_sort after xs = foldr (insert_sorted after) xs []"

section \<open>The normalizer\<close>

record entry =
  label :: jsval
  val :: jsval

record canonical =
  title :: jsval
  type :: jsval
  display :: jsval
  primaryValue :: string
  secondaryLabel :: jsval
  series :: "entry list"

text \<open>
  Inside the \<^verbatim>\<open>try\<close> block the three variables are assigned one after the other. When a
  step throws, the \<^verbatim>\<open>catch\<close> block logs and the record is returned with the
  assignments made so far: \<open>attempt m c k\<close> runs \<open>m\<close>, continues with \<open>k\<close>, and on a
  throw returns \<open>c\<close> together with \<open>True\<close> for the call of \<^verbatim>\<open>console.error\<close>.
\<close>

definition attempt :: "'a option \<Rightarrow> canonical \<Rightarrow> ('a \<Rightarrow> canonical \<times> bool) \<Rightarrow> canonical \<times> bool" where
  "attempt m c k = (case m of None \<Rightarrow> (c, True) | Some v \<Rightarrow> k v)"

text \<open>\<^verbatim>\<open>sumData\<close>: the sum runs from the left, each addition rounding to a double.\<close>

definition sumData :: "runtime \<Rightarrow> jsval \<Rightarrow> jsval option" where
  "sumData rt arr =
     (case arr of
        Arr vs \<Rightarrow> reduceM (\<lambda>sum v. js_add rt sum (js_or v (Num (Fin 0)))) (Num (Fin 0)) vs
      | _ \<Rightarrow> Some (Num (Fin 0)))"

text \<open>
  \<^verbatim>\<open>s.count ?? sumData(s.data) ?? 0\<close>: the data are read and summed only when the
  count is \<^verbatim>\<open>null\<close> or \<^verbatim>\<open>undefined\<close>.
\<close>

definition countOf :: "runtime \<Rightarrow> jsval \<Rightarrow> jsval option" where
  "countOf rt s =
     do { c \<leftarrow> getp s ''count'';
          if nullish c
          then do { d \<leftarrow> getp s ''data'';
                    sd \<leftarrow> sumData rt d;
                    Some (js_coalesce sd (Num (Fin 0))) }
          else Some c }"

definition typeOfKind :: "jsval \<Rightarrow> jsval option" where
  "typeOfKind kind =
     do { f \<leftarrow> either_includes kind ''Funnel'' ''funnel'';
          if f then Some (Str ''FUNNEL'') else
     do { r \<leftarrow> either_includes kind ''Retention'' ''retention'';
          if r then Some (Str ''RETENTION'') else
     do { p \<leftarrow> either_includes kind ''Path'' ''path'';
          if p then Some (Str ''PATHS'') else
     do { l \<leftarrow> either_includes kind ''Lifecycle'' ''lifecycle'';
          if l then Some (Str ''LIFECYCLE'') else
     do { s \<leftarrow> either_includes kind ''Stickiness'' ''stickiness'';
          if s then Some (Str ''STICKINESS'') else Some (Str ''TRENDS'') } } } } }"

definition resolveType :: "jsval \<Rightarrow> jsval option" where
  "resolveType insight =
     do { filters \<leftarrow> getp insight ''filters'';
          fi \<leftarrow> (if truthy filters then getp filters ''insight'' else Some Undefined);
          if truthy filters \<and> truthy fi then Some fi
          else do {
            query \<leftarrow> getp insight ''query'';
            if truthy query then
              do { source \<leftarrow> getp query ''source'';
                   k \<leftarrow> getp query ''kind'';
                   typeOfKind (js_or (js_or (opt_get source ''kind'') k) (Str '''')) }
            else Some (Str ''TRENDS'') } }"

definition resolveDisplay :: "jsval \<Rightarrow> jsval option" where
  "resolveDisplay insight =
     do { filters \<leftarrow> getp insight ''filters'';
          query \<leftarrow> getp insight ''query'';
          Some (js_or (js_or (js_or (js_or
            (opt_get filters ''display'')
            (opt_get (opt_get query ''trendsFilter'') ''display''))
            (opt_get (opt_get (opt_get query ''source'') ''trendsFilter'') ''display''))
            (opt_get (opt_get query ''chartSettings'') ''display''))
            (Str '''')) }"

definition resolveResult :: "jsval \<Rightarrow> jsval option" where
  "resolveResult insight =
     do { r \<leftarrow> getp insight ''result'';
          qs \<leftarrow> getp insight ''query_status'';
          Some (js_coalesce r (opt_get qs ''results'')) }"

text \<open>The bar test of the display variant; a display that is no string has no
  \<^verbatim>\<open>startsWith\<close>.\<close>

definition isBarDisplay :: "jsval \<Rightarrow> bool option" where
  "isBarDisplay d =
     (case d of
        Str s \<Rightarrow> Some (startsWith s ''ActionsBar'' \<or> s = ''ActionsUnstackedBar''
                       \<or> s = ''ActionsStackedBar'' \<or> s = ''ActionsBarValue'')
      | _ \<Rightarrow> None)"

text \<open>The receiver of \<^verbatim>\<open>.map\<close>, \<^verbatim>\<open>.filter\<close>: only an array has the method.\<close>

definition asArray :: "jsval \<Rightarrow> jsval list option" where
  "asArray v = (case v of Arr xs \<Rightarrow> Some xs | _ \<Rightarrow> None)"

definition pieSlice :: "runtime \<Rightarrow> jsval \<Rightarrow> entry option" where
  "pieSlice rt s =
     do { l \<leftarrow> getp s ''label'';
          n \<leftarrow> getp s ''name'';
          v \<leftarrow> countOf rt s;
          Some \<lparr>label = js_or (js_or l n) (Str ''''), val = v\<rparr> }"

definition zipSeries :: "runtime \<Rightarrow> jsval \<Rightarrow> entry list option" where
  "zipSeries rt first =
     do { d \<leftarrow> getp first ''data'';
          ds \<leftarrow> asArray (js_or d (Arr []));
          mapMi 0 (\<lambda>i v. do { ls \<leftarrow> getp first ''labels'';
                              Some \<lparr>label = js_or (index rt (js_or ls (Arr [])) i) (Str ''''),
                                    val = v\<rparr> }) ds }"

text \<open>
  The branch of the three trend types. The pie variant assigns the series first and sums
  it afterwards, so a sum that throws leaves the series assigned.
\<close>

definition trendsBranch :: "runtime \<Rightarrow> jsval \<Rightarrow> canonical \<Rightarrow> canonical \<times> bool" where
  "trendsBranch rt result c =
     (case result of
        Arr rs \<Rightarrow>
          if rs = [] then (c, False)
          else if display c = Str ''BoldNumber'' then
            attempt (reduceM (\<lambda>sum s. do { v \<leftarrow> countOf rt s; js_add rt sum v })
                       (Num (Fin 0)) rs) c
              (\<lambda>total.
            attempt (formatNumber rt total) c
              (\<lambda>pv. let c1 = c\<lparr>primaryValue := pv\<rparr> in
            attempt (getp (hd rs) ''label'') c1
              (\<lambda>l. (c1\<lparr>secondaryLabel := js_or l (Str '''')\<rparr>, False))))
          else if display c = Str ''ActionsPie'' then
            attempt (mapM (pieSlice rt) rs) c
              (\<lambda>ser. let c1 = c\<lparr>series := ser\<rparr> in
            attempt (reduceM (\<lambda>sum s. js_add rt sum (val s)) (Num (Fin 0)) ser) c1
              (\<lambda>total.
            attempt (formatNumber rt total) c1
              (\<lambda>pv. (c1\<lparr>primaryValue := pv,
                         secondaryLabel := Str (decimal (length ser) @ '' series'')\<rparr>, False))))
          else
            attempt (isBarDisplay (display c)) c
              (\<lambda>isBar.
            attempt (do { cnt \<leftarrow> getp (hd rs) ''count'';
                          if nullish cnt
                          then do { d \<leftarrow> getp (hd rs) ''data''; sumData rt d }
                          else Some cnt }) c
              (\<lambda>n.
            attempt (formatNumber rt n) c
              (\<lambda>pv. let c1 = c\<lparr>primaryValue := pv\<rparr> in
            attempt (getp (hd rs) ''label'') c1
              (\<lambda>l. let c2 = c1\<lparr>secondaryLabel := js_or l (Str '''')\<rparr> in
            attempt (if isBar then zipSeries rt (hd rs) else zipSeries rt (hd rs)) c2
              (\<lambda>ser. (c2\<lparr>series := ser\<rparr>, False))))))
      | _ \<Rightarrow> (c, False))"

text \<open>
  \<^verbatim>\<open>first.count > 0 ? ((last.count / first.count) * 100).toFixed(1) : '0'\<close>: the
  quotient is rounded to a double, then the product, and \<^verbatim>\<open>toFixed\<close> prints the double
  that results.
\<close>

definition conversionRate :: "runtime \<Rightarrow> jsval \<Rightarrow> jsval \<Rightarrow> string option" where
  "conversionRate rt first final =
     do { fc \<leftarrow> getp first ''count'';
          pos \<leftarrow> positive rt fc;
          if pos then
            do { lc \<leftarrow> getp final ''count'';
                 l \<leftarrow> toNum rt lc;
                 f \<leftarrow> toNum rt fc;
                 Some (toFixed rt 1 (num_mul (num_div l f) (Fin 100))) }
          else Some ''0'' }"

definition funnelBranch :: "runtime \<Rightarrow> jsval \<Rightarrow> canonical \<Rightarrow> canonical \<times> bool" where
  "funnelBranch rt result c =
     (case result of
        Arr rs \<Rightarrow>
          if length rs \<ge> 2 then
            attempt (conversionRate rt (hd rs) (last rs)) c
              (\<lambda>rate. let c1 = c\<lparr>primaryValue := rate @ ''%''\<rparr> in
            attempt (do { fnm \<leftarrow> getp (hd rs) ''name'';
                          a \<leftarrow> toStr rt fnm;
                          lnm \<leftarrow> getp (last rs) ''name'';
                          b \<leftarrow> toStr rt lnm;
                          Some (a @ '' '' @ rarrow @ '' '' @ b) }) c1
              (\<lambda>l. let c2 = c1\<lparr>secondaryLabel := Str l\<rparr> in
            attempt (mapM (\<lambda>step. do { n \<leftarrow> getp step ''name'';
                                         k \<leftarrow> getp step ''count'';
                                         Some \<lparr>label = n, val = k\<rparr> }) rs) c2
              (\<lambda>ser. (c2\<lparr>series := ser\<rparr>, False))))
          else (c, False)
      | _ \<Rightarrow> (c, False))"

text \<open>
  \<^verbatim>\<open>day0Count > 0 ? Math.round((v.count / day0Count) * 100) : 0\<close>, with the same two
  roundings to a double before \<^verbatim>\<open>Math.round\<close>.
\<close>

definition retentionPoint :: "runtime \<Rightarrow> jsval \<Rightarrow> nat \<Rightarrow> jsval \<Rightarrow> entry option" where
  "retentionPoint rt day0Count i v =
     do { pos \<leftarrow> positive rt day0Count;
          if pos then
            do { k \<leftarrow> getp v ''count'';
                 n \<leftarrow> toNum rt k;
                 d \<leftarrow> toNum rt day0Count;
                 Some \<lparr>label = Str (''Day '' @ decimal i),
                       val = Num (Math_round (num_mul (num_div n d) (Fin 100)))\<rparr> }
          else Some \<lparr>label = Str (''Day '' @ decimal i), val = Num (Fin 0)\<rparr> }"

definition retentionBranch :: "runtime \<Rightarrow> jsval \<Rightarrow> canonical \<Rightarrow> canonical \<times> bool" where
  "retentionBranch rt result c =
     (case result of
        Arr rs \<Rightarrow>
          if rs = [] then (c, False)
          else
            attempt (getp (hd rs) ''values'') c
              (\<lambda>vals. let day0Count = js_or (opt_get (index rt vals 0) ''count'') (Num (Fin 0)) in
            attempt (do { vs \<leftarrow> asArray (js_or vals (Arr []));
                          mapMi 0 (retentionPoint rt day0Count) vs }) c
              (\<lambda>ser. let c1 = c\<lparr>series := ser\<rparr> in
                 if length ser > 1
                 then attempt (do { s \<leftarrow> js_add rt (val (ser ! 1)) (Str ''%''); toStr rt s }) c1
                        (\<lambda>pv. (c1\<lparr>primaryValue := pv,
                                   secondaryLabel := Str ''Day 1 retention''\<rparr>, False))
                 else attempt (formatNumber rt day0Count) c1
                        (\<lambda>pv. (c1\<lparr>primaryValue := pv,
                                   secondaryLabel := Str ''Retained (Day 0)''\<rparr>, False))))
      | _ \<Rightarrow> (c, False))"

definition edgeWeight :: "jsval \<Rightarrow> jsval" where
  "edgeWeight p = js_or (js_or (opt_get p ''edge_weight'') (opt_get p ''count'')) (Num (Fin 0))"

text \<open>
  The comparator \<^verbatim>\<open>(a, b) => weight(b) - weight(a)\<close> is positive on \<open>(a, b)\<close> when
  the difference of the two numbers, rounded to a double, is.
\<close>

definition heavier :: "jsnum \<Rightarrow> jsnum \<Rightarrow> bool" where
  "heavier wb wa = num_gt (num_sub wb wa) (Fin 0)"

definition is_fin :: "jsnum \<Rightarrow> bool" where
  "is_fin x = (case x of Fin r \<Rightarrow> True | _ \<Rightarrow> False)"

text \<open>
  The sort of the edges. An array of fewer than two elements is returned without a call
  of the comparator. Otherwise every element is compared at least once, so the sort
  throws when the weight of some edge has no number. When all weights are finite the
  comparator is consistent and the order is that of the stable sort; when one is
  \<open>NaN\<close> or infinite the comparator can return \<open>NaN\<close> and the order is the engine's.
\<close>

definition sortEdges :: "runtime \<Rightarrow> jsval list \<Rightarrow> jsval list option" where
  "sortEdges rt es =
     (if length es < 2 then Some es
      else do { ws \<leftarrow> mapM (\<lambda>p. toNum rt (edgeWeight p)) es;
                Some (if list_all is_fin ws
                      then map fst (stable_sort (\<lambda>a b. heavier (snd b) (snd a)) (zip es ws))
                      else ImplSort rt es) })"

definition hasEndpoints :: "jsval \<Rightarrow> bool option" where
  "hasEndpoints p =
     do { s \<leftarrow> getp p ''source'';
          if truthy s then map_option truthy (getp p ''target'') else Some False }"

definition pathEntry :: "runtime \<Rightarrow> jsval \<Rightarrow> entry option" where
  "pathEntry rt p =
     do { s \<leftarrow> getp p ''source'';
          a \<leftarrow> toStr rt s;
          t \<leftarrow> getp p ''target'';
          b \<leftarrow> toStr rt t;
          Some \<lparr>label = Str (a @ '' '' @ rarrow @ '' '' @ b), val = edgeWeight p\<rparr> }"

definition pathsBranch :: "runtime \<Rightarrow> jsval \<Rightarrow> canonical \<Rightarrow> canonical \<times> bool" where
  "pathsBranch rt result c =
     attempt (case result of
                Arr rs \<Rightarrow> formatNumber rt (Num (Fin (of_nat (length rs))))
              | _ \<Rightarrow> Some emdash) c
       (\<lambda>pv. let c1 = c\<lparr>primaryValue := pv\<rparr>;
                 c2 = c1\<lparr>secondaryLabel := Str ''total paths''\<rparr>
             in attempt (do { es \<leftarrow> filterM hasEndpoints (case result of Arr rs \<Rightarrow> rs | _ \<Rightarrow> []);
                              srt \<leftarrow> sortEdges rt es;
                              mapM (pathEntry rt) (take 6 srt) }) c2
                  (\<lambda>ser. (c2\<lparr>series := ser\<rparr>, False)))"

definition genericBranch :: "runtime \<Rightarrow> jsval \<Rightarrow> canonical \<Rightarrow> canonical \<times> bool" where
  "genericBranch rt result c =
     (case result of
        Arr rs \<Rightarrow>
          if rs = [] then (c, False)
          else
            attempt (do { k \<leftarrow> getp (hd rs) ''count'';
                          a \<leftarrow> getp (hd rs) ''aggregated_value'';
                          formatNumber rt (js_coalesce (js_coalesce k a) (Num (Fin 0))) }) c
              (\<lambda>pv. let c1 = c\<lparr>primaryValue := pv\<rparr> in
            attempt (getp (hd rs) ''label'') c1
              (\<lambda>l. (c1\<lparr>secondaryLabel := js_or l (Str '''')\<rparr>, False)))
      | _ \<Rightarrow> (c, False))"

text \<open>
  \<^verbatim>\<open>parseInsightData\<close>: type, display and result are resolved before the \<^verbatim>\<open>try\<close>
  block, so a throw there leaves the function (\<open>None\<close>); the extraction runs inside it.
\<close>

definition parseInsightData :: "runtime \<Rightarrow> jsval \<Rightarrow> jsval \<Rightarrow> (canonical \<times> bool) option" where
  "parseInsightData rt ttl insight =
     do { ty \<leftarrow> resolveType insight;
          disp \<leftarrow> resolveDisplay insight;
          result \<leftarrow> resolveResult insight;
          let c = \<lparr>title = ttl, type = ty, display = disp, primaryValue = emdash,
                   secondaryLabel = Str '''', series = []\<rparr>;
          Some (if ty = Str ''TRENDS'' \<or> ty = Str ''LIFECYCLE'' \<or> ty = Str ''STICKINESS''
                  then trendsBranch rt result c
                else if ty = Str ''FUNNEL'' then funnelBranch rt result c
                else if ty = Str ''RETENTION'' then retentionBranch rt result c
                else if ty = Str ''PATHS'' then pathsBranch rt result c
                else genericBranch rt result c) }"

definition parseInsight :: "runtime \<Rightarrow> jsval \<Rightarrow> (canonical \<times> bool) option" where
  "parseInsight rt insight =
     do { n \<leftarrow> getp insight ''name'';
          d \<leftarrow> getp insight ''derived_name'';
          parseInsightData rt (js_or (js_or n d) (Str ''PostHog Insight'')) insight }"

definition tileHasData :: "jsval \<Rightarrow> bool option" where
  "tileHasData t =
     do { i \<leftarrow> getp t ''insight'';
          if truthy i then
            do { r \<leftarrow> getp i ''result'';
                 qs \<leftarrow> getp i ''query_status'';
                 Some (truthy (js_coalesce r (opt_get qs ''results''))) }
          else Some False }"

definition parseDashboard :: "runtime \<Rightarrow> jsval \<Rightarrow> (canonical \<times> bool) option" where
  "parseDashboard rt dashboard =
     do { nm \<leftarrow> getp dashboard ''name'';
          let ttl = js_or nm (Str ''PostHog Dashboard'');
          tl \<leftarrow> getp dashboard ''tiles'';
          ts \<leftarrow> asArray (js_or tl (Arr []));
          tiles \<leftarrow> filterM tileHasData ts;
          if tiles = [] then
            Some (\<lparr>title = ttl, type = Str ''empty'', display = Undefined,
                   primaryValue = emdash, secondaryLabel = Str '''', series = []\<rparr>, False)
          else
            do { insight \<leftarrow> getp (hd tiles) ''insight'';
                 n \<leftarrow> getp insight ''name'';
                 d \<leftarrow> getp insight ''derived_name'';
                 parseInsightData rt (js_or (js_or n d) ttl) insight } }"

text \<open>
  The normalizer as \<^verbatim>\<open>fetchInsight\<close> runs it on the decoded payload: unwrap the scene
  envelope, then a dashboard or a single insight.
\<close>

definition normalize :: "runtime \<Rightarrow> jsval \<Rightarrow> (canonical \<times> bool) option" where
  "normalize rt data =
     do { env \<leftarrow> getp data ''insight'';
          let payload = js_or env data;
          tiles \<leftarrow> getp payload ''tiles'';
          if truthy tiles then parseDashboard rt payload else parseInsight rt payload }"

section \<open>The axis scaler\<close>

text \<open>
  \<^verbatim>\<open>Math.log10\<close> and \<^verbatim>\<open>Math.pow(10, e)\<close>: the standard fixes their values at the
  special arguments, the engine approximates the others.
\<close>

definition Math_log10 :: "runtime \<Rightarrow> jsnum \<Rightarrow> jsnum" where
  "Math_log10 rt x =
     (case x of
        Fin r \<Rightarrow> if r > 0 then Log10 rt r else if r = 0 then NInf else NaN
      | PInf \<Rightarrow> PInf
      | _ \<Rightarrow> NaN)"

definition Math_pow10 :: "runtime \<Rightarrow> jsnum \<Rightarrow> jsnum" where
  "Math_pow10 rt e =
     (case e of
        Fin k \<Rightarrow> if k = 0 then Fin 1 else Pow10 rt k
      | PInf \<Rightarrow> PInf
      | NInf \<Rightarrow> Fin 0
      | NaN \<Rightarrow> NaN)"

record axis =
  ticks :: "jsnum list"
  axisMax :: jsnum

text \<open>
  \<^verbatim>\<open>for (let t = 0; t <= bound; t += step) ticks.push(Math.round(t))\<close>; a loop that
  does not end has the value \<open>None\<close>.
\<close>

partial_function (option) tickLoop :: "jsnum \<Rightarrow> jsnum \<Rightarrow> jsnum \<Rightarrow> jsnum list \<Rightarrow> jsnum list option" where
  "tickLoop t bound step acc =
     (if num_le t bound then tickLoop (num_add t step) bound step (acc @ [Math_round t])
      else Some acc)"

text \<open>The literals \<^verbatim>\<open>2.5\<close> and \<^verbatim>\<open>0.01\<close> of the source denote doubles.\<close>

definition multipliers :: "jsnum list" where
  "multipliers = [Fin 1, Fin 2, Fin (5 / 2), Fin 5, Fin 10]"

definition hundredth :: jsnum where
  "hundredth = rd (1 / 100)"

definition niceYAxis :: "runtime \<Rightarrow> jsnum \<Rightarrow> axis option" where
  "niceYAxis rt rawMax =
     (if num_le rawMax (Fin 0) then Some \<lparr>ticks = [Fin 0], axisMax = Fin 1\<rparr>
      else
        let roughStep = num_div rawMax (Fin 4);
            magnitude = Math_pow10 rt (Math_floor (Math_log10 rt roughStep));
            step = num_mul magnitude
                     (case find (\<lambda>s. num_ge (num_mul s magnitude) roughStep) multipliers of
                        None \<Rightarrow> Fin 1
                      | Some s \<Rightarrow> s);
            top = num_mul (Math_ceil (num_div rawMax step)) step
        in map_option (\<lambda>ts. \<lparr>ticks = ts, axisMax = top\<rparr>)
             (tickLoop (Fin 0) (num_add top (num_mul step hundredth)) step []))"

section \<open>The renderers\<close>

text \<open>\<^verbatim>\<open>str.replace(/c/g, rep)\<close> for a single character \<open>c\<close>.\<close>

definition replaceAll :: "char \<Rightarrow> string \<Rightarrow> string \<Rightarrow> string" where
  "replaceAll c rep s = concat (map (\<lambda>x. if x = c then rep else [x]) s)"

definition esc_string :: "string \<Rightarrow> string" where
  "esc_string s =
     replaceAll (CHR 0x27) ''&#39;''
       (replaceAll (CHR 0x22) ''&quot;''
         (replaceAll (CHR ''>'') ''&gt;''
           (replaceAll (CHR ''<'') ''&lt;''
             (replaceAll (CHR ''&'') ''&amp;'' s))))"

text \<open>\<^verbatim>\<open>esc(v)\<close> converts with \<^verbatim>\<open>String(v)\<close> first, which can throw.\<close>

definition esc :: "runtime \<Rightarrow> jsval \<Rightarrow> string option" where
  "esc rt v = map_option esc_string (toStr rt v)"

text \<open>
  The text that escaping is to produce: none of \<^verbatim>\<open><\<close>, \<^verbatim>\<open>>\<close>, the double and
  the single quote, and \<^verbatim>\<open>&\<close> only at the head of one of the five entities.
\<close>

fun escaped :: "string \<Rightarrow> bool" where
  "escaped [] = True"
| "escaped (c # cs) =
     ((if c = CHR ''&''
       then startsWith cs ''amp;'' \<or> startsWith cs ''lt;'' \<or> startsWith cs ''gt;''
            \<or> startsWith cs ''quot;'' \<or> startsWith cs ''#39;''
       else c \<noteq> CHR ''<'' \<and> c \<noteq> CHR ''>'' \<and> c \<noteq> CHR 0x22 \<and> c \<noteq> CHR 0x27)
      \<and> escaped cs)"

text \<open>
  \<^verbatim>\<open>truncate(str, len)\<close>: the length and the prefix are counted in UTF-16 units.
\<close>

definition truncate :: "runtime \<Rightarrow> jsval \<Rightarrow> nat \<Rightarrow> string option" where
  "truncate rt v len =
     do { s \<leftarrow> toStr rt v;
          Some (if units rt s > len then sliceTo rt s (len - 1) @ ellipsis else s) }"

text \<open>
  The markup a renderer returns is kept as the sequence of its parts: \<open>Markup\<close> is
  literal text of the template together with the numbers set into attributes (the
  geometry), \<open>Figure\<close> a number set as element content (a rank, a percentage printed by
  \<^verbatim>\<open>toFixed\<close>), and \<open>Text s\<close> a string \<open>s\<close> set as element content. A renderer throws
  when a value that it converts has no primitive; the conversions behind the geometry are
  kept for that reason.
\<close>

datatype piece = Markup | Figure | Text string

definition max2 :: "jsnum \<Rightarrow> jsnum \<Rightarrow> jsnum" where
  "max2 a b = (if a = NaN \<or> b = NaN then NaN else if num_less a b then b else a)"

definition Math_max :: "runtime \<Rightarrow> jsval list \<Rightarrow> jsnum option" where
  "Math_max rt vs = map_option (foldl max2 NInf) (mapM (toNum rt) vs)"

text \<open>The elements of a \<^verbatim>\<open>Set\<close> in insertion order.\<close>

fun uniq :: "nat list \<Rightarrow> nat list \<Rightarrow> nat list" where
  "uniq seen [] = []"
| "uniq seen (x # xs) = (if x \<in> set seen then uniq seen xs else x # uniq (x # seen) xs)"

text \<open>
  \<^verbatim>\<open>evenlySpaced\<close>: the indexes \<^verbatim>\<open>Math.round((i / (count - 1)) * (total - 1))\<close>, the
  quotient and the product rounded to doubles.
\<close>

definition spacedIndex :: "nat \<Rightarrow> nat \<Rightarrow> nat \<Rightarrow> nat" where
  "spacedIndex n count i =
     (case Math_round (num_mul (num_div (Fin (real i)) (Fin (real count - 1))) (Fin (real n - 1))) of
        Fin r \<Rightarrow> nat \<lfloor>r\<rfloor>
      | _ \<Rightarrow> 0)"

definition evenlySpaced :: "nat \<Rightarrow> nat \<Rightarrow> nat list" where
  "evenlySpaced n count =
     (if n \<le> count then [0..<n]
      else uniq [] ([0] @ map (spacedIndex n count) [1..<count - 1] @ [n - 1]))"

definition yAxisSvg :: "runtime \<Rightarrow> jsnum list \<Rightarrow> piece list option" where
  "yAxisSvg rt yTicks =
     map_option concat
       (mapM (\<lambda>tick. do { f \<leftarrow> formatAxisNum rt (Num tick);
                           Some [Markup, Text (esc_string f), Markup] }) yTicks)"

definition xAxisSvg :: "runtime \<Rightarrow> jsval list \<Rightarrow> piece list option" where
  "xAxisSvg rt labels =
     map_option concat
       (mapM (\<lambda>i. do { l \<leftarrow> esc rt (js_or (index rt (Arr labels) i) (Str ''''));
                        Some [Markup, Text l, Markup] })
          (evenlySpaced (length labels) (min (length labels) 6)))"

definition renderLineChart :: "runtime \<Rightarrow> entry list \<Rightarrow> piece list option" where
  "renderLineChart rt ser =
     do { m \<leftarrow> Math_max rt (map val ser);
          ax \<leftarrow> niceYAxis rt m;
          ys \<leftarrow> yAxisSvg rt (ticks ax);
          xs \<leftarrow> xAxisSvg rt (map label ser);
          Some ([Markup] @ ys @ [Markup] @ xs @ [Markup]) }"

definition renderBarChart :: "runtime \<Rightarrow> entry list \<Rightarrow> piece list option" where
  "renderBarChart rt ser =
     do { m \<leftarrow> Math_max rt (map val ser);
          ax \<leftarrow> niceYAxis rt m;
          ys \<leftarrow> yAxisSvg rt (ticks ax);
          xs \<leftarrow> xAxisSvg rt (map label ser);
          Some ([Markup] @ ys @ map (\<lambda>s. Markup) ser @ [Markup] @ xs @ [Markup]) }"

definition funnelRow :: "runtime \<Rightarrow> jsval \<Rightarrow> nat \<Rightarrow> entry \<Rightarrow> piece list option" where
  "funnelRow rt maxVal i step =
     do { m \<leftarrow> toNum rt maxVal;
          v \<leftarrow> toNum rt (val step);
          l \<leftarrow> truncate rt (js_or (label step) (Str (''Step '' @ decimal (i + 1)))) 28;
          n \<leftarrow> formatAxisNum rt (val step);
          Some [Markup, Text (esc_string l), Markup, Text (esc_string n), Markup, Figure,
                Markup] }"

definition renderFunnelChart :: "runtime \<Rightarrow> entry list \<Rightarrow> piece list option" where
  "renderFunnelChart rt ser =
     (case ser of
        [] \<Rightarrow> None
      | s # _ \<Rightarrow>
          do { rows \<leftarrow> mapMi 0 (funnelRow rt (js_or (val s) (Num (Fin 1)))) ser;
               Some ([Markup] @ concat rows @ [Markup]) })"

definition renderBigNumber :: "runtime \<Rightarrow> string \<Rightarrow> jsval \<Rightarrow> piece list option" where
  "renderBigNumber rt pv sl =
     do { l \<leftarrow> (if truthy sl
                 then do { s \<leftarrow> esc rt sl; Some [Markup, Text s, Markup] }
                 else Some []);
          Some ([Markup, Text (esc_string pv), Markup] @ l @ [Markup]) }"

definition legendItem :: "runtime \<Rightarrow> entry \<Rightarrow> piece list option" where
  "legendItem rt item =
     do { l \<leftarrow> truncate rt (label item) 32;
          Some [Markup, Text (esc_string l), Markup, Figure, Markup] }"

definition renderPieChart :: "runtime \<Rightarrow> entry list \<Rightarrow> piece list option" where
  "renderPieChart rt ser =
     do { total \<leftarrow> reduceM (\<lambda>s d. js_add rt s (val d)) (Num (Fin 0)) ser;
          ls \<leftarrow> mapM (legendItem rt) (take 6 ser);
          Some ([Markup] @ map (\<lambda>s. Markup) ser @ concat ls @ [Markup]) }"

definition pathRow :: "runtime \<Rightarrow> entry \<Rightarrow> piece list option" where
  "pathRow rt p =
     do { l \<leftarrow> truncate rt (label p) 60;
          n \<leftarrow> formatAxisNum rt (val p);
          Some [Markup, Figure, Markup, Text (esc_string l), Markup, Text (esc_string n),
                Markup] }"

definition renderPathsList :: "runtime \<Rightarrow> entry list \<Rightarrow> string \<Rightarrow> piece list option" where
  "renderPathsList rt ser totalCount =
     do { rows \<leftarrow> mapM (pathRow rt) ser;
          Some ([Markup, Text (esc_string totalCount), Markup] @ concat rows @ [Markup]) }"

definition renderEmptyChart :: "piece list" where
  "renderEmptyChart = [Markup]"

section \<open>The composer\<close>

definition seriesDateRange :: "runtime \<Rightarrow> entry list \<Rightarrow> string option" where
  "seriesDateRange rt ser =
     (if length ser < 2 then Some ''''
      else let first = label (hd ser); final = label (last ser)
           in if truthy first \<and> truthy final
              then do { a \<leftarrow> toStr rt first;
                        b \<leftarrow> toStr rt final;
                        Some (a @ '' '' @ endash @ '' '' @ b) }
              else Some '''')"

text \<open>
  The lookup in the object literal of \<^verbatim>\<open>formatType\<close>: the key is the string form of
  \<open>type\<close>; besides the six own keys the literal inherits the members of
  \<^verbatim>\<open>Object.prototype\<close>, which are no strings.
\<close>

definition typeNames :: "(string \<times> jsval) list" where
  "typeNames =
     [(''TRENDS'', Str ''Trends''), (''FUNNEL'', Str ''Funnel''),
      (''RETENTION'', Str ''Retention''), (''PATHS'', Str ''Paths''),
      (''LIFECYCLE'', Str ''Lifecycle''), (''STICKINESS'', Str ''Stickiness'')]
     @ map (\<lambda>k. (k, Builtin))
         [''constructor'', ''toString'', ''toLocaleString'', ''valueOf'', ''hasOwnProperty'',
          ''isPrototypeOf'', ''propertyIsEnumerable'', ''__proto__'', ''__defineGetter__'',
          ''__defineSetter__'', ''__lookupGetter__'', ''__lookupSetter__'']"

definition formatType :: "runtime \<Rightarrow> jsval \<Rightarrow> jsval \<Rightarrow> jsval option" where
  "formatType rt ty disp =
     (if disp = Str ''BoldNumber'' then Some (Str ''Big number'')
      else if disp = Str ''ActionsPie'' then Some (Str ''Pie chart'')
      else if disp = Str ''ActionsBar'' \<or> disp = Str ''ActionsUnstackedBar''
              \<or> disp = Str ''ActionsStackedBar'' \<or> disp = Str ''ActionsBarValue''
        then Some (Str ''Bar chart'')
      else if disp = Str ''ActionsAreaGraph'' then Some (Str ''Area chart'')
      else do { key \<leftarrow> toStr rt ty;
                Some (js_or (js_or (case map_of typeNames key of None \<Rightarrow> Undefined
                                    | Some l \<Rightarrow> l) ty)
                            (Str ''Insight'')) })"

text \<open>The renderer that the composer picks, in the order of its tests.\<close>

datatype renderer = BigNumber | PieChart | BarChart | FunnelChart | PathsList | LineChart | EmptyChart

definition chooseRenderer :: "bool \<Rightarrow> bool \<Rightarrow> bool \<Rightarrow> jsval \<Rightarrow> entry list \<Rightarrow> renderer" where
  "chooseRenderer isBigNum isPie isBar ty ser =
     (if isBigNum then BigNumber
      else if isPie \<and> length ser \<ge> 2 then PieChart
      else if isBar \<and> length ser \<ge> 2 then BarChart
      else if ty = Str ''FUNNEL'' \<and> length ser \<ge> 2 then FunnelChart
      else if ty = Str ''PATHS'' \<and> length ser \<ge> 1 then PathsList
      else if length ser \<ge> 2 then LineChart
      else EmptyChart)"

definition invoke :: "runtime \<Rightarrow> renderer \<Rightarrow> canonical \<Rightarrow> piece list option" where
  "invoke rt r c =
     (case r of
        BigNumber \<Rightarrow> renderBigNumber rt (primaryValue c) (secondaryLabel c)
      | PieChart \<Rightarrow> renderPieChart rt (series c)
      | BarChart \<Rightarrow> renderBarChart rt (series c)
      | FunnelChart \<Rightarrow> renderFunnelChart rt (series c)
      | PathsList \<Rightarrow> renderPathsList rt (series c) (primaryValue c)
      | LineChart \<Rightarrow> renderLineChart rt (series c)
      | EmptyChart \<Rightarrow> Some renderEmptyChart)"

text \<open>The display of the record after the default \<^verbatim>\<open>display = ''\<close> of the parameter.\<close>

definition displayOf :: "canonical \<Rightarrow> jsval" where
  "displayOf c = (if display c = Undefined then Str '''' else display c)"

definition chartOf :: "canonical \<Rightarrow> renderer option" where
  "chartOf c =
     do { isBar \<leftarrow> isBarDisplay (displayOf c);
          Some (chooseRenderer (displayOf c = Str ''BoldNumber'') (displayOf c = Str ''ActionsPie'')
                  isBar (type c) (series c)) }"

definition metaLine :: "runtime \<Rightarrow> canonical \<Rightarrow> string option" where
  "metaLine rt c =
     do { dateRange \<leftarrow> (if displayOf c = Str ''BoldNumber'' \<or> displayOf c = Str ''ActionsPie''
                         then Some '''' else seriesDateRange rt (series c));
          tl \<leftarrow> formatType rt (type c) (displayOf c);
          case tl of
            Str typeLabel \<Rightarrow>
              Some (toUpperCase rt typeLabel
                    @ (if dateRange \<noteq> '''' then '' '' @ bullet @ '' '' @ dateRange else ''''))
          | _ \<Rightarrow> None }"

definition renderMarkup :: "runtime \<Rightarrow> canonical \<Rightarrow> piece list option" where
  "renderMarkup rt c =
     do { t \<leftarrow> esc rt (title c);
          r \<leftarrow> chartOf c;
          chart \<leftarrow> invoke rt r c;
          ml \<leftarrow> metaLine rt c;
          Some ([Markup, Text (esc_string ml), Markup, Text t, Markup]
                @ chart
                @ [Markup, Text t, Markup]) }"

text \<open>
  A runtime for the closed examples. None of them reaches its parser, its printer or its
  sort order. Its logarithm returns the integer below the true logarithm, which is all
  that the source uses of it, and its power is the nearest double. Its string operations
  count the bytes that start a character, which are the units of a text without
  characters beyond the basic plane.
\<close>

definition ilog10 :: "real \<Rightarrow> int" where
  "ilog10 x =
     (if x \<ge> 1 then int (length (decimal (nat \<lfloor>x\<rfloor>))) - 1
      else - int (length (decimal (nat \<lceil>1 / x\<rceil> - 1))))"

definition tenTo :: "int \<Rightarrow> real" where
  "tenTo k = (if k \<ge> 0 then 10 ^ nat k else 1 / 10 ^ nat (- k))"

definition continuation :: "char \<Rightarrow> bool" where
  "continuation c = (case c of Char b0 b1 b2 b3 b4 b5 b6 b7 \<Rightarrow> b7 \<and> \<not> b6)"

fun take_units :: "nat \<Rightarrow> string \<Rightarrow> string" where
  "take_units n [] = []"
| "take_units n (c # cs) =
     (if continuation c then c # take_units n cs
      else if n = 0 then [] else c # take_units (n - 1) cs)"

fun split_units :: "string \<Rightarrow> string list" where
  "split_units [] = []"
| "split_units (c # cs) =
     (case split_units cs of
        [] \<Rightarrow> [[c]]
      | u # us \<Rightarrow> if u \<noteq> [] \<and> continuation (hd u) then (c # u) # us else [c] # u # us)"

definition rt0 :: runtime where
  "rt0 = \<lparr>StringToNumber = (\<lambda>s. if s = [] then Fin 0 else NaN),
          NumberToString = (\<lambda>r. ''?''),
          toUpperCase = map (\<lambda>c. case map_of (zip ''abcdefghijklmnopqrstuvwxyz''
                                                       ''ABCDEFGHIJKLMNOPQRSTUVWXYZ'') c of
                                    None \<Rightarrow> c | Some u \<Rightarrow> u),
          Log10 = (\<lambda>x. Fin (of_int (ilog10 x))),
          Pow10 = (\<lambda>k. rd (tenTo \<lfloor>k\<rfloor>)),
          ImplSort = (\<lambda>es. es),
          units = (\<lambda>s. length (filter (\<lambda>c. \<not> continuation c) s)),
          unitAt = (\<lambda>s i. split_units s ! i),
          sliceTo = (\<lambda>s n. take_units n s)\<rparr>"

section \<open>Auxiliary predicates and example data\<close>


definition six_kinds :: "jsval list" where
  "six_kinds = [Str ''TRENDS'', Str ''FUNNEL'', Str ''RETENTION'', Str ''PATHS'',
                Str ''LIFECYCLE'', Str ''STICKINESS'']"

text \<open>Two records with the same title, type and display.\<close>

definition same_head :: "canonical \<Rightarrow> canonical \<Rightarrow> bool" where
  "same_head c0 c = (title c = title c0 \<and> type c = type c0 \<and> display c = display c0)"

text \<open>The legacy type of an insight: a truthy \<^verbatim>\<open>filters.insight\<close>.\<close>

definition legacyType :: "jsval \<Rightarrow> jsval option" where
  "legacyType ins =
     (let fi = opt_get (opt_get ins ''filters'') ''insight''
      in if truthy (opt_get ins ''filters'') \<and> truthy fi then Some fi else None)"

text \<open>The kind that type resolution inspects: \<^verbatim>\<open>query.source?.kind || query.kind || ''\<close>.\<close>

definition queryKind :: "jsval \<Rightarrow> jsval" where
  "queryKind ins =
     (let q = opt_get ins ''query''
      in js_or (js_or (opt_get (opt_get q ''source'') ''kind'') (opt_get q ''kind'')) (Str ''''))"

definition typeSpec :: "jsval \<Rightarrow> jsval \<Rightarrow> bool" where
  "typeSpec ins ty = (case legacyType ins of Some v \<Rightarrow> ty = v | None \<Rightarrow> ty \<in> set six_kinds)"

text \<open>The tiles that \<^verbatim>\<open>parseDashboard\<close> keeps.\<close>

definition qualifies :: "jsval \<Rightarrow> bool" where
  "qualifies t =
     (let i = opt_get t ''insight''
      in truthy i \<and> truthy (js_coalesce (opt_get i ''result'')
                                (opt_get (opt_get i ''query_status'') ''results'')))"

definition empty_dashboard :: jsval where
  "empty_dashboard = Obj [(''name'', Str ''Growth''), (''tiles'', Arr [])]"

definition legacy_sql :: jsval where
  "legacy_sql = Obj [(''filters'', Obj [(''insight'', Str ''SQL'')])]"

definition numeric_kind :: jsval where
  "numeric_kind = Obj [(''query'', Obj [(''kind'', Num (Fin 5))])]"

definition null_edge :: jsval where
  "null_edge = Obj [(''query'', Obj [(''kind'', Str ''PathsQuery'')]), (''result'', Arr [Null])]"

text \<open>Type resolution throws: the type comes from the query and its kind has no
  \<^verbatim>\<open>includes\<close>.\<close>

definition typeFails :: "jsval \<Rightarrow> bool" where
  "typeFails ins =
     (legacyType ins = None \<and> truthy (opt_get ins ''query'')
      \<and> (case queryKind ins of Str s \<Rightarrow> False | Arr xs \<Rightarrow> False | _ \<Rightarrow> True))"

definition funnel_query :: jsval where
  "funnel_query = Obj [(''query'', Obj [(''source'', Obj [(''kind'', Str ''FunnelsQuery'')])])]"

text \<open>The entity of a character, and the character itself when it has none.\<close>

definition entity :: "char \<Rightarrow> string" where
  "entity c =
     (if c = CHR ''&'' then ''&amp;''
      else if c = CHR ''<'' then ''&lt;''
      else if c = CHR ''>'' then ''&gt;''
      else if c = CHR 0x22 then ''&quot;''
      else if c = CHR 0x27 then ''&#39;''
      else [c])"

definition script_title :: string where
  "script_title = ''<script>&'' @ [CHR 0x22, CHR 0x27]"

definition script_record :: canonical where
  "script_record =
     \<lparr>title = Str script_title, type = Str ''PATHS'', display = Str '''',
      primaryValue = ''1'', secondaryLabel = Str ''total paths'',
      series = [\<lparr>label = Str (''<a> '' @ rarrow @ '' b&c''), val = Num (Fin 1500)\<rparr>]\<rparr>"

definition script_markup :: "piece list" where
  "script_markup =
     [Markup, Text ''PATHS'', Markup, Text ''&lt;script&gt;&amp;&quot;&#39;'', Markup,
      Markup, Text ''1'', Markup,
      Markup, Figure, Markup, Text (''&lt;a&gt; '' @ rarrow @ '' b&amp;c''), Markup,
      Text ''1.5K'', Markup, Markup,
      Markup, Text ''&lt;script&gt;&amp;&quot;&#39;'', Markup]"

text \<open>A result of the \<^verbatim>\<open>try\<close> block that went through \<^verbatim>\<open>catch\<close> has no series.\<close>

definition caught_empty :: "canonical \<times> bool \<Rightarrow> bool" where
  "caught_empty p = (if snd p then series (fst p) = [] else True)"

text \<open>The same, but for the pie variant.\<close>

definition caught_ok :: "canonical \<times> bool \<Rightarrow> bool" where
  "caught_ok p =
     (if snd p then series (fst p) = [] \<or> display (fst p) = Str ''ActionsPie'' else True)"

definition trend_kinds :: "jsval list" where
  "trend_kinds = [Str ''TRENDS'', Str ''LIFECYCLE'', Str ''STICKINESS'']"

definition pie_record :: "canonical \<Rightarrow> bool" where
  "pie_record c = (display c = Str ''ActionsPie'' \<and> type c \<in> set trend_kinds)"

text \<open>A pie whose second slice has a count without a primitive.\<close>

definition pie_payload :: jsval where
  "pie_payload =
     Obj [(''filters'', Obj [(''display'', Str ''ActionsPie'')]),
          (''result'', Arr [Obj [(''label'', Str ''a''), (''count'', Num (Fin 3))],
                            Obj [(''label'', Str ''b''),
                                 (''count'', Obj [(''toString'', Num (Fin 1))])]])]"

definition pie_caught :: canonical where
  "pie_caught =
     \<lparr>title = Str ''PostHog Insight'', type = Str ''TRENDS'', display = Str ''ActionsPie'',
      primaryValue = emdash, secondaryLabel = Str '''',
      series = [\<lparr>label = Str ''a'', val = Num (Fin 3)\<rparr>,
                \<lparr>label = Str ''b'', val = Obj [(''toString'', Num (Fin 1))]\<rparr>]\<rparr>"








text \<open>The entry that the funnel branch builds from a step.\<close>

definition stepEntry :: "jsval \<Rightarrow> entry" where
  "stepEntry s = \<lparr>label = opt_get s ''name'', val = opt_get s ''count''\<rparr>"

definition step :: "string \<Rightarrow> real \<Rightarrow> jsval" where
  "step n k = Obj [(''name'', Str n), (''count'', Num (Fin k))]"

definition funnel_of :: "jsval list \<Rightarrow> jsval" where
  "funnel_of steps = Obj [(''filters'', Obj [(''insight'', Str ''FUNNEL'')]), (''result'', Arr steps)]"

definition funnel_payload :: jsval where
  "funnel_payload = funnel_of [step ''visit'' 100, step ''signup'' 100, step ''pay'' 25]"

text \<open>A funnel whose last step has a name without a primitive.\<close>

definition funnel_bad_name :: jsval where
  "funnel_bad_name =
     funnel_of [step ''visit'' 100,
                Obj [(''name'', Obj [(''toString'', Num (Fin 1))]), (''count'', Num (Fin 25))]]"

text \<open>The number of the count of a retention day, when it has one.\<close>

definition countNum :: "runtime \<Rightarrow> jsval \<Rightarrow> jsnum" where
  "countNum rt v = (case toNum rt (opt_get v ''count'') of Some n \<Rightarrow> n | None \<Rightarrow> NaN)"

definition day :: "real \<Rightarrow> jsval" where
  "day k = Obj [(''count'', Num (Fin k))]"

definition retention_payload :: jsval where
  "retention_payload =
     Obj [(''query'', Obj [(''kind'', Str ''RetentionQuery'')]),
          (''result'', Arr [Obj [(''count'', Num (Fin 100)),
                                 (''values'', Arr [day 100, day 40, day 10])]])]"

section \<open>Properties\<close>

lemmas rd_eval = rd_def ilog2_def twoTo_def round_even_def bits.simps signed_inf_def Let_def

lemmas fmt_eval = formatNumber_def formatAxisNum_def num_ge_def num_le_def num_gt_def
  toFixed_def numToString_def is_integer_def decimal.simps digit_def Let_def

lemmas norm_eval = normalize_def parseInsight_def parseDashboard_def parseInsightData_def
  resolveType_def resolveDisplay_def resolveResult_def typeOfKind_def either_includes_def
  opt_get_def js_or_def js_coalesce_def nullish_def attempt_def asArray_def tileHasData_def
  trendsBranch_def funnelBranch_def retentionBranch_def pathsBranch_def genericBranch_def
  conversionRate_def retentionPoint_def countOf_def sumData_def pieSlice_def zipSeries_def
  isBarDisplay_def edgeWeight_def heavier_def sortEdges_def is_fin_def hasEndpoints_def
  pathEntry_def stable_sort_def js_add_def is_stringy_def startsWith_def num_sub_def
  positive_def

lemma mapM_Some:
  "(\<And>x. x \<in> set xs \<Longrightarrow> f x = Some (g x)) \<Longrightarrow> mapM f xs = Some (map g xs)"
  by (induction xs) auto

lemma mapM_set:
  "mapM f xs = Some ys \<Longrightarrow> y \<in> set ys \<Longrightarrow> \<exists>x \<in> set xs. f x = Some y"
  by (induction xs arbitrary: ys) (auto split: bind_splits)

lemma mapM_length: "mapM f xs = Some ys \<Longrightarrow> length ys = length xs"
  by (induction xs arbitrary: ys) (auto split: bind_splits)

lemma mapMi_set:
  "mapMi i f xs = Some ys \<Longrightarrow> y \<in> set ys \<Longrightarrow> \<exists>j. \<exists>x \<in> set xs. f j x = Some y"
proof (induction xs arbitrary: i ys)
  case Nil
  then show ?case by simp
next
  case (Cons a xs)
  from Cons.prems(1) obtain b bs where b: "f i a = Some b" "mapMi (Suc i) f xs = Some bs"
    "ys = b # bs"
    by (auto split: bind_splits)
  with Cons.prems(2) consider "y = b" | "y \<in> set bs" by auto
  then show ?case
  proof cases
    case 1
    with b show ?thesis by auto
  next
    case 2
    from Cons.IH [OF b(2) 2] show ?thesis by auto
  qed
qed

lemma mapMi_length: "mapMi i f xs = Some ys \<Longrightarrow> length ys = length xs"
  by (induction xs arbitrary: i ys) (auto split: bind_splits)

subsection \<open>Renderer selection\<close>


lemma renderMarkup_parts:
  assumes "renderMarkup rt c = Some ps"
  obtains r chart ml t where "chartOf c = Some r" "invoke rt r c = Some chart"
    "metaLine rt c = Some ml" "esc rt (title c) = Some t"
    "ps = [Markup, Text (esc_string ml), Markup, Text t, Markup] @ chart @ [Markup, Text t, Markup]"
  using assms by (auto simp: renderMarkup_def split: bind_splits)


lemmas render_eval = renderMarkup_def chartOf_def displayOf_def isBarDisplay_def startsWith_def
  chooseRenderer_def invoke_def metaLine_def formatType_def typeNames_def js_or_def
  seriesDateRange_def rt0_def esc_def esc_string_def replaceAll_def renderEmptyChart_def
  renderPathsList_def pathRow_def truncate_def continuation_def


subsection \<open>The numeric formatters\<close>

lemma decimal_nonempty: "decimal n \<noteq> []"
  by (subst decimal.simps) simp

lemma decimal_small: "n < 10 \<Longrightarrow> decimal n = [digit n]"
  by (subst decimal.simps) simp

lemma decimal_large: "n \<ge> 10 \<Longrightarrow> decimal n = decimal (n div 10) @ [digit (n mod 10)]"
  by (subst decimal.simps) simp

text \<open>
  One decimal: the digits of the integer \<open>n\<close> whose tenth is nearest to \<open>x\<close>, the upper
  one at a tie, with the point before the last digit.
\<close>

lemma toFixed_nearest_tenth:
  assumes "0 \<le> x" "x < 10 ^ 21"
  shows "\<exists>n. toFixed rt 1 (Fin x) = decimal (n div 10) @ ''.'' @ [digit (n mod 10)]
           \<and> real n / 10 - 1 / 20 \<le> x \<and> x < real n / 10 + 1 / 20"
proof -
  define n where "n = nat \<lfloor>x * 10 + 1 / 2\<rfloor>"
  have f: "0 \<le> \<lfloor>x * 10 + 1 / 2\<rfloor>" using assms(1) by simp
  then have n: "real n = of_int \<lfloor>x * 10 + 1 / 2\<rfloor>" by (simp add: n_def)
  have lo: "real n \<le> x * 10 + 1 / 2" unfolding n by (rule of_int_floor_le)
  have hi: "x * 10 + 1 / 2 < real n + 1" unfolding n by linarith
  have fmt: "toFixed rt 1 (Fin x) = decimal (n div 10) @ ''.'' @ [digit (n mod 10)]"
  proof (cases "n < 10")
    case True
    then have "decimal n = [digit n]" "decimal (n div 10) = ''0''" "n mod 10 = n"
      by (simp_all add: decimal_small digit_def)
    with assms show ?thesis by (simp add: toFixed_def Let_def n_def [symmetric])
  next
    case False
    then have d: "decimal n = decimal (n div 10) @ [digit (n mod 10)]"
      by (simp add: decimal_large)
    have "decimal (n div 10) \<noteq> []" by (rule decimal_nonempty)
    then have "length (decimal (n div 10)) \<ge> 1" by (cases "decimal (n div 10)") simp_all
    with assms d show ?thesis by (simp add: toFixed_def Let_def n_def [symmetric])
  qed
  from fmt lo hi show ?thesis by (intro exI [of _ n]) (simp add: field_simps)
qed

lemma num_mod_zero_iff:
  assumes "0 < b" "0 \<le> r"
  shows "num_mod (Fin r) (Fin b) = Fin 0 \<longleftrightarrow> is_integer (r / b)"
proof -
  have "r - b * of_int \<lfloor>r / b\<rfloor> = 0 \<longleftrightarrow> r / b = of_int \<lfloor>r / b\<rfloor>"
    using assms by (simp add: field_simps)
  moreover have "r = 0 \<Longrightarrow> is_integer (r / b)" by (simp add: is_integer_def)
  ultimately show ?thesis using assms by (auto simp: is_integer_def sgn_if)
qed

text \<open>
  C3, as the claim states it, fails: \<^verbatim>\<open>formatNumber(2000)\<close> is \<open>2.0K\<close>, with the decimal
  that the claim drops for an exact integer.
\<close>

theorem formatNumber_2000_keeps_decimal:
  "formatNumber rt0 (Num (Fin 2000)) = Some ''2.0K''
   \<and> formatNumber rt0 (Num (Fin 2000)) \<noteq> Some ''2K''"
  by (simp add: fmt_eval rd_eval)

text \<open>
  C3, amended. For a finite number \<open>r\<close>, \<^verbatim>\<open>formatNumber\<close> prints the quotient of \<open>r\<close>
  by \<open>10^6\<close> with one decimal and \<open>M\<close> from a million on, the quotient by \<open>10^3\<close> with one
  decimal and \<open>K\<close> from a thousand on, and the string of \<open>r\<close> below. The quotient is the
  double nearest to the exact one, and the decimal printed is the tenth nearest to that
  double, the upper tenth at a tie: \<open>1150\<close>, whose quotient is the double just below
  \<open>1.15\<close>, gives \<open>1.1K\<close>, and \<open>1250\<close> gives \<open>1.3K\<close>. The one decimal is always there,
  also when the scaled value is an integer. Only \<^verbatim>\<open>formatAxisNum\<close> drops the decimal,
  when \<open>r\<close> is an exact multiple of the unit. An input whose number is \<open>NaN\<close> passes
  through as its string. \<open>999\<close> gives \<open>999\<close>, \<open>1000\<close> gives \<open>1.0K\<close>, \<open>2000\<close> gives
  \<open>2.0K\<close> (\<open>2K\<close> on the axis), \<open>1500000\<close> gives \<open>1.5M\<close>.
\<close>

theorem format_thresholds:
  "formatNumber rt (Num (Fin r)) =
     Some (if r \<ge> 1000000 then toFixed rt 1 (num_div (Fin r) (Fin 1000000)) @ ''M''
           else if r \<ge> 1000 then toFixed rt 1 (num_div (Fin r) (Fin 1000)) @ ''K''
           else numToString rt (Fin r))
   \<and> formatAxisNum rt (Num (Fin r)) =
     Some (if r \<ge> 1000000
             then toFixed rt (if is_integer (r / 1000000) then 0 else 1)
                    (num_div (Fin r) (Fin 1000000)) @ ''M''
           else if r \<ge> 1000
             then toFixed rt (if is_integer (r / 1000) then 0 else 1)
                    (num_div (Fin r) (Fin 1000)) @ ''K''
           else numToString rt (Fin r))
   \<and> (toNum rt v = Some NaN \<longrightarrow>
        formatNumber rt v = toStr rt v \<and> formatAxisNum rt v = toStr rt v)
   \<and> (0 \<le> x \<and> x < 10 ^ 21 \<longrightarrow>
        (\<exists>n. toFixed rt 1 (Fin x) = decimal (n div 10) @ ''.'' @ [digit (n mod 10)]
            \<and> real n / 10 - 1 / 20 \<le> x \<and> x < real n / 10 + 1 / 20))
   \<and> formatNumber rt (Num (Fin 999)) = Some ''999''
   \<and> formatNumber rt (Num (Fin 1000)) = Some ''1.0K''
   \<and> formatNumber rt (Num (Fin 1150)) = Some ''1.1K''
   \<and> formatNumber rt (Num (Fin 1250)) = Some ''1.3K''
   \<and> formatNumber rt (Num (Fin 2000)) = Some ''2.0K''
   \<and> formatNumber rt (Num (Fin 999999)) = Some ''1000.0K''
   \<and> formatNumber rt (Num (Fin 1500000)) = Some ''1.5M''
   \<and> formatAxisNum rt (Num (Fin 999)) = Some ''999''
   \<and> formatAxisNum rt (Num (Fin 1000)) = Some ''1K''
   \<and> formatAxisNum rt (Num (Fin 1150)) = Some ''1.1K''
   \<and> formatAxisNum rt (Num (Fin 2000)) = Some ''2K''
   \<and> formatAxisNum rt (Num (Fin 1500000)) = Some ''1.5M''
   \<and> formatAxisNum rt (Num (Fin 3000000)) = Some ''3M''"
proof -
  have a: "formatNumber rt (Num (Fin r)) =
     Some (if r \<ge> 1000000 then toFixed rt 1 (num_div (Fin r) (Fin 1000000)) @ ''M''
           else if r \<ge> 1000 then toFixed rt 1 (num_div (Fin r) (Fin 1000)) @ ''K''
           else numToString rt (Fin r))"
    by (auto simp: formatNumber_def num_ge_def num_le_def simp del: num_div.simps)
  have m1: "r \<ge> 1000000 \<Longrightarrow>
      num_mod (Fin r) (Fin 1000000) = Fin 0 \<longleftrightarrow> is_integer (r / 1000000)"
    using num_mod_zero_iff [of 1000000 r] by simp
  have m2: "r \<ge> 1000 \<Longrightarrow> num_mod (Fin r) (Fin 1000) = Fin 0 \<longleftrightarrow> is_integer (r / 1000)"
    using num_mod_zero_iff [of 1000 r] by simp
  have b: "formatAxisNum rt (Num (Fin r)) =
     Some (if r \<ge> 1000000
             then toFixed rt (if is_integer (r / 1000000) then 0 else 1)
                    (num_div (Fin r) (Fin 1000000)) @ ''M''
           else if r \<ge> 1000
             then toFixed rt (if is_integer (r / 1000) then 0 else 1)
                    (num_div (Fin r) (Fin 1000)) @ ''K''
           else numToString rt (Fin r))"
    using m1 m2
    by (auto simp: formatAxisNum_def num_ge_def num_le_def
        simp del: num_mod.simps num_div.simps)
  have c: "toNum rt v = Some NaN \<longrightarrow>
      formatNumber rt v = toStr rt v \<and> formatAxisNum rt v = toStr rt v"
    by (simp add: formatNumber_def formatAxisNum_def)
  have d: "0 \<le> x \<and> x < 10 ^ 21 \<longrightarrow>
        (\<exists>n. toFixed rt 1 (Fin x) = decimal (n div 10) @ ''.'' @ [digit (n mod 10)]
            \<and> real n / 10 - 1 / 20 \<le> x \<and> x < real n / 10 + 1 / 20)"
    using toFixed_nearest_tenth by blast
  have e: "formatNumber rt (Num (Fin 999)) = Some ''999''"
    "formatNumber rt (Num (Fin 1000)) = Some ''1.0K''"
    "formatNumber rt (Num (Fin 1150)) = Some ''1.1K''"
    "formatNumber rt (Num (Fin 1250)) = Some ''1.3K''"
    "formatNumber rt (Num (Fin 2000)) = Some ''2.0K''"
    "formatNumber rt (Num (Fin 999999)) = Some ''1000.0K''"
    "formatNumber rt (Num (Fin 1500000)) = Some ''1.5M''"
    by (simp_all add: fmt_eval rd_eval)
  have f: "formatAxisNum rt (Num (Fin 999)) = Some ''999''"
    "formatAxisNum rt (Num (Fin 1000)) = Some ''1K''"
    "formatAxisNum rt (Num (Fin 1150)) = Some ''1.1K''"
    "formatAxisNum rt (Num (Fin 2000)) = Some ''2K''"
    "formatAxisNum rt (Num (Fin 1500000)) = Some ''1.5M''"
    "formatAxisNum rt (Num (Fin 3000000)) = Some ''3M''"
    by (simp_all add: fmt_eval rd_eval)
  from a b c d e f show ?thesis by blast
qed

theorem format_thresholds_witness:
  "formatNumber rt0 (Num (Fin 1234)) = Some ''1.2K''
   \<and> formatAxisNum rt0 (Num (Fin 1234)) = Some ''1.2K''
   \<and> toNum rt0 Undefined = Some NaN \<and> formatNumber rt0 Undefined = Some ''undefined''
   \<and> (0::real) \<le> 5 / 4 \<and> (5 / 4 :: real) < 10 ^ 21 \<and> toFixed rt0 1 (Fin (5 / 4)) = ''1.3''"
proof -
  have "toFixed rt0 1 (Fin (5 / 4)) = ''1.3''" by (simp add: fmt_eval)
  with format_thresholds [of rt0 1234 Undefined "5 / 4"] show ?thesis
    by (simp add: fmt_eval rd_eval)
qed

subsection \<open>What the extraction keeps and what it catches\<close>

lemma attempt_same_head:
  assumes "same_head c0 c" "\<And>v. same_head c0 (fst (k v))"
  shows "same_head c0 (fst (attempt m c k))"
  using assms by (simp add: attempt_def split: option.splits)

lemma same_head_upd [simp]:
  "same_head c0 (c\<lparr>primaryValue := x\<rparr>) = same_head c0 c"
  "same_head c0 (c\<lparr>secondaryLabel := y\<rparr>) = same_head c0 c"
  "same_head c0 (c\<lparr>series := z\<rparr>) = same_head c0 c"
  "same_head c0 c0"
  by (simp_all add: same_head_def)

lemma trends_keeps: "same_head c (fst (trendsBranch rt result c))"
  unfolding trendsBranch_def
  by (auto intro!: attempt_same_head simp: Let_def split: jsval.splits)

lemma funnel_keeps: "same_head c (fst (funnelBranch rt result c))"
  unfolding funnelBranch_def
  by (auto intro!: attempt_same_head simp: Let_def split: jsval.splits)

lemma retention_keeps: "same_head c (fst (retentionBranch rt result c))"
  unfolding retentionBranch_def
  by (auto intro!: attempt_same_head simp: Let_def split: jsval.splits)

lemma paths_keeps: "same_head c (fst (pathsBranch rt result c))"
  unfolding pathsBranch_def
  by (auto intro!: attempt_same_head simp: Let_def split: jsval.splits)

lemma generic_keeps: "same_head c (fst (genericBranch rt result c))"
  unfolding genericBranch_def
  by (auto intro!: attempt_same_head simp: Let_def split: jsval.splits)

lemma typeOfKind_six: "typeOfKind k = Some ty \<Longrightarrow> ty \<in> set six_kinds"
  by (auto simp: typeOfKind_def six_kinds_def split: bind_splits if_splits)

lemma parseInsightData_head:
  assumes "parseInsightData rt ttl ins = Some (c, l)"
  shows "title c = ttl \<and> resolveType ins = Some (type c) \<and> resolveDisplay ins = Some (display c)"
proof -
  from assms obtain ty disp result where r: "resolveType ins = Some ty"
    "resolveDisplay ins = Some disp" "resolveResult ins = Some result"
    by (auto simp: parseInsightData_def split: bind_splits)
  define c0 where "c0 = \<lparr>title = ttl, type = ty, display = disp, primaryValue = emdash,
                   secondaryLabel = Str '''', series = []\<rparr>"
  have "same_head c0 c"
    using assms r trends_keeps [of c0 rt result] funnel_keeps [of c0 rt result]
      retention_keeps [of c0 rt result] paths_keeps [of c0 rt result]
      generic_keeps [of c0 rt result]
    by (auto simp: parseInsightData_def c0_def Let_def split: if_splits)
  then show ?thesis using r by (simp add: same_head_def c0_def)
qed

lemma attempt_caught:
  assumes "caught_ok (c, True)" "\<And>v. caught_ok (k v)"
  shows "caught_ok (attempt m c k)"
  using assms by (simp add: attempt_def split: option.splits)

lemma caught_ok_simps [simp]:
  "caught_ok (c, False)"
  "series c = [] \<Longrightarrow> caught_ok (c, l)"
  "series c = [] \<Longrightarrow> caught_ok (c\<lparr>primaryValue := x\<rparr>, l)"
  "series c = [] \<Longrightarrow> caught_ok (c\<lparr>secondaryLabel := y\<rparr>, l)"
  "series c = [] \<Longrightarrow> caught_ok (c\<lparr>primaryValue := x, secondaryLabel := y\<rparr>, l)"
  "display c = Str ''ActionsPie'' \<Longrightarrow> caught_ok (c\<lparr>series := z\<rparr>, l)"
  by (simp_all add: caught_ok_def)

lemma trends_caught: "series c = [] \<Longrightarrow> caught_ok (trendsBranch rt result c)"
  unfolding trendsBranch_def
  by (auto intro!: attempt_caught simp: Let_def split: jsval.splits)

lemma attempt_caught_empty:
  assumes "series c = []" "\<And>v. caught_empty (k v)"
  shows "caught_empty (attempt m c k)"
  using assms by (simp add: attempt_def caught_empty_def split: option.splits)

lemma caught_empty_simps [simp]:
  "caught_empty (c, False)"
  "series c = [] \<Longrightarrow> caught_empty (c, l)"
  by (simp_all add: caught_empty_def)

lemma funnel_caught: "series c = [] \<Longrightarrow> caught_empty (funnelBranch rt result c)"
  unfolding funnelBranch_def
  by (auto intro!: attempt_caught_empty simp: Let_def split: jsval.splits)

lemma toStr_of_toNum: "toNum rt v = Some n \<Longrightarrow> \<exists>s. toStr rt v = Some s"
  by (cases v) (auto split: if_splits)

lemma formatNumber_returns: "toNum rt v = Some n \<Longrightarrow> \<exists>s. formatNumber rt v = Some s"
  using toStr_of_toNum [of rt v n] by (auto simp: formatNumber_def)

lemma retentionPoint_val:
  "retentionPoint rt d i v = Some e \<Longrightarrow> \<exists>x. val e = Num x"
  by (auto simp: retentionPoint_def split: bind_splits if_splits)

lemma day0Count_converts:
  assumes "asArray (js_or vals (Arr [])) = Some vs"
    and "mapMi 0 (retentionPoint rt (js_or (opt_get (index rt vals 0) ''count'') (Num (Fin 0)))) vs
         = Some ser"
  shows "\<exists>n. toNum rt (js_or (opt_get (index rt vals 0) ''count'') (Num (Fin 0))) = Some n"
proof (cases vals)
  case (Arr xs)
  show ?thesis
  proof (cases xs)
    case Nil
    with Arr show ?thesis by (simp add: opt_get_def js_or_def)
  next
    case (Cons x rest)
    with Arr assms show ?thesis
      by (auto simp: asArray_def js_or_def retentionPoint_def positive_def split: bind_splits)
  qed
qed (use assms in \<open>auto simp: asArray_def js_or_def opt_get_def split: if_splits\<close>)

lemma retention_caught: "series c = [] \<Longrightarrow> caught_empty (retentionBranch rt result c)"
proof -
  assume s: "series c = []"
  define fin where "fin ser d =
      (let c1 = c\<lparr>series := ser\<rparr> in
                 if length ser > 1
                 then attempt (do { s \<leftarrow> js_add rt (val (ser ! 1)) (Str ''%''); toStr rt s }) c1
                        (\<lambda>pv. (c1\<lparr>primaryValue := pv,
                                   secondaryLabel := Str ''Day 1 retention''\<rparr>, False))
                 else attempt (formatNumber rt d) c1
                        (\<lambda>pv. (c1\<lparr>primaryValue := pv,
                                   secondaryLabel := Str ''Retained (Day 0)''\<rparr>, False)))"
    for ser d
  have tail: "caught_empty (fin ser d)"
    if vs: "asArray (js_or vals (Arr [])) = Some vs"
      and ser: "mapMi 0 (retentionPoint rt d) vs = Some ser"
      and d: "d = js_or (opt_get (index rt vals 0) ''count'') (Num (Fin 0))"
    for vals vs ser d
  proof (cases "length ser > 1")
    case True
    then have "ser ! 1 \<in> set ser" by simp
    from mapMi_set [OF ser this] retentionPoint_val obtain x where "val (ser ! 1) = Num x"
      by blast
    with True show ?thesis
      by (simp add: fin_def js_add_def is_stringy_def attempt_def caught_empty_def)
  next
    case False
    from day0Count_converts [OF vs ser [unfolded d]] d formatNumber_returns
    obtain pv where "formatNumber rt d = Some pv" by blast
    with False show ?thesis by (simp add: fin_def attempt_def caught_empty_def)
  qed
  show ?thesis
  proof (cases result)
    case (Arr rs)
    show ?thesis
    proof (cases "rs = []")
      case True
      with Arr show ?thesis by (simp add: retentionBranch_def)
    next
      case False
      show ?thesis
      proof (cases "getp (hd rs) ''values''")
        case None
        with Arr False s show ?thesis by (simp add: retentionBranch_def attempt_def)
      next
        case (Some vals)
        define d where "d = js_or (opt_get (index rt vals 0) ''count'') (Num (Fin 0))"
        show ?thesis
        proof (cases "asArray (js_or vals (Arr [])) \<bind> mapMi 0 (retentionPoint rt d)")
          case None
          with Arr False Some s show ?thesis
            by (simp add: retentionBranch_def attempt_def d_def Let_def del: index.simps)
        next
          case ser: (Some ser)
          then obtain vs where vs: "asArray (js_or vals (Arr [])) = Some vs"
            "mapMi 0 (retentionPoint rt d) vs = Some ser"
            by (auto split: bind_splits)
          from Arr False Some ser have "retentionBranch rt result c = fin ser d"
            by (simp add: retentionBranch_def attempt_def d_def fin_def Let_def
                del: index.simps)
          with tail [OF vs d_def] show ?thesis by simp
        qed
      qed
    qed
  qed (simp_all add: retentionBranch_def)
qed

lemma paths_caught: "series c = [] \<Longrightarrow> caught_empty (pathsBranch rt result c)"
  unfolding pathsBranch_def
  by (auto intro!: attempt_caught_empty simp: Let_def split: jsval.splits)

lemma generic_caught: "series c = [] \<Longrightarrow> caught_empty (genericBranch rt result c)"
  unfolding genericBranch_def
  by (auto intro!: attempt_caught_empty simp: Let_def split: jsval.splits)

lemma parseInsightData_caught:
  assumes "parseInsightData rt ttl ins = Some (c, True)"
  shows "series c = [] \<or> pie_record c"
proof -
  from assms obtain ty disp result where r: "resolveType ins = Some ty"
    "resolveDisplay ins = Some disp" "resolveResult ins = Some result"
    by (auto simp: parseInsightData_def split: bind_splits)
  define c0 where "c0 = \<lparr>title = ttl, type = ty, display = disp, primaryValue = emdash,
                   secondaryLabel = Str '''', series = []\<rparr>"
  have s: "series c0 = []" by (simp add: c0_def)
  from parseInsightData_head [OF assms] r have ty: "type c = ty" by simp
  show ?thesis
  proof (cases "ty = Str ''TRENDS'' \<or> ty = Str ''LIFECYCLE'' \<or> ty = Str ''STICKINESS''")
    case True
    with assms r have "trendsBranch rt result c0 = (c, True)"
      by (auto simp: parseInsightData_def c0_def Let_def)
    with trends_caught [OF s, of rt result] have "series c = [] \<or> display c = Str ''ActionsPie''"
      by (simp add: caught_ok_def)
    with True ty show ?thesis by (auto simp: pie_record_def trend_kinds_def)
  next
    case False
    have "caught_empty (c, True)"
      using assms r False funnel_caught [OF s, of rt result]
        retention_caught [OF s, of rt result] paths_caught [OF s, of rt result]
        generic_caught [OF s, of rt result]
      by (auto simp: parseInsightData_def c0_def Let_def split: if_splits)
    then show ?thesis by (simp add: caught_empty_def)
  qed
qed

lemma getp_None_iff: "getp v k = None \<longleftrightarrow> nullish v"
  by (cases v) (auto simp: nullish_def)

lemma truthy_not_nullish: "truthy v \<Longrightarrow> \<not> nullish v"
  by (cases v) (auto simp: nullish_def)

lemma resolveDisplay_total: "\<not> nullish ins \<Longrightarrow> \<exists>d. resolveDisplay ins = Some d"
  by (auto simp: resolveDisplay_def getp_None_iff split: bind_splits)

lemma resolveResult_total: "\<not> nullish ins \<Longrightarrow> \<exists>d. resolveResult ins = Some d"
  by (auto simp: resolveResult_def getp_None_iff split: bind_splits)

lemma parseInsightData_returns:
  assumes "\<not> nullish ins"
  shows "(\<exists>p. parseInsightData rt ttl ins = Some p) \<longleftrightarrow> (\<exists>ty. resolveType ins = Some ty)"
  using resolveDisplay_total [OF assms] resolveResult_total [OF assms]
  by (auto simp: parseInsightData_def Let_def split: bind_splits)

lemma typeOfKind_None_iff: "typeOfKind k = None \<longleftrightarrow> (\<forall>s. k \<noteq> Str s) \<and> (\<forall>xs. k \<noteq> Arr xs)"
  by (cases k) (auto simp: typeOfKind_def either_includes_def split: bind_splits)

subsection \<open>Type resolution and the dashboard filter\<close>

lemma resolveType_eq:
  assumes "\<not> nullish ins"
  shows "resolveType ins =
     (case legacyType ins of Some v \<Rightarrow> Some v
      | None \<Rightarrow> if truthy (opt_get ins ''query'') then typeOfKind (queryKind ins)
                else Some (Str ''TRENDS''))"
proof -
  obtain f where f: "getp ins ''filters'' = Some f"
    using assms by (meson getp_None_iff not_None_eq)
  obtain q where q: "getp ins ''query'' = Some q"
    using assms by (meson getp_None_iff not_None_eq)
  have tf: "truthy f \<Longrightarrow> \<exists>x. getp f ''insight'' = Some x"
    by (meson getp_None_iff not_None_eq truthy_not_nullish)
  have tq: "truthy q \<Longrightarrow> \<exists>x y. getp q ''source'' = Some x \<and> getp q ''kind'' = Some y"
    by (meson getp_None_iff not_None_eq truthy_not_nullish)
  show ?thesis
    using f q tf tq
    by (auto simp: resolveType_def legacyType_def queryKind_def opt_get_def Let_def
        split: bind_splits)
qed

lemma typeSpec_resolve:
  assumes "\<not> nullish ins" "resolveType ins = Some ty"
  shows "typeSpec ins ty"
  using assms typeOfKind_six
  by (auto simp: resolveType_eq typeSpec_def six_kinds_def split: option.splits if_splits)

lemma resolveType_nullish: "nullish ins \<Longrightarrow> resolveType ins = None"
  by (auto simp: resolveType_def nullish_def)

lemma filterM_Some:
  assumes "\<forall>x\<in>set xs. f x = Some (g x)"
  shows "filterM f xs = Some (filter g xs)"
  using assms by (induction xs) auto

lemma filterM_None:
  assumes "x \<in> set xs" "f x = None"
  shows "filterM f xs = None"
  using assms by (induction xs) (auto split: bind_splits)

lemma tileHasData_eq: "tileHasData t = (if nullish t then None else Some (qualifies t))"
proof (cases "nullish t")
  case True
  then show ?thesis by (auto simp: tileHasData_def nullish_def)
next
  case False
  then obtain i where i: "getp t ''insight'' = Some i"
    by (meson getp_None_iff not_None_eq)
  have "truthy i \<Longrightarrow> \<exists>x y. getp i ''result'' = Some x \<and> getp i ''query_status'' = Some y"
    by (meson getp_None_iff not_None_eq truthy_not_nullish)
  with i False show ?thesis
    by (auto simp: tileHasData_def qualifies_def opt_get_def Let_def)
qed

lemma filter_tiles:
  "filterM tileHasData ts = (if \<exists>t\<in>set ts. nullish t then None else Some (filter qualifies ts))"
proof (cases "\<exists>t\<in>set ts. nullish t")
  case True
  then show ?thesis using filterM_None [of _ ts tileHasData] by (auto simp: tileHasData_eq)
next
  case False
  then show ?thesis using filterM_Some [of ts tileHasData qualifies] by (simp add: tileHasData_eq)
qed

lemma typeFails_iff:
  assumes "\<not> nullish ins"
  shows "resolveType ins = None \<longleftrightarrow> typeFails ins"
  using assms
  by (auto simp: resolveType_eq typeFails_def typeOfKind_None_iff split: option.splits jsval.splits)

lemma parseInsightData_None_iff:
  "parseInsightData rt ttl ins = None \<longleftrightarrow> nullish ins \<or> typeFails ins"
proof (cases "nullish ins")
  case True
  then show ?thesis by (simp add: parseInsightData_def resolveType_nullish)
next
  case False
  with parseInsightData_returns [OF False, of rt ttl] typeFails_iff [OF False]
  show ?thesis by (metis not_None_eq)
qed

lemma parseInsight_eq:
  "\<not> nullish ins \<Longrightarrow> parseInsight rt ins =
     parseInsightData rt (js_or (js_or (opt_get ins ''name'') (opt_get ins ''derived_name''))
                            (Str ''PostHog Insight'')) ins"
  by (auto simp: parseInsight_def opt_get_def getp_None_iff split: bind_splits option.splits)

lemma parseDashboard_eq:
  assumes "\<not> nullish d" "truthy (opt_get d ''tiles'')"
  shows "parseDashboard rt d =
     (case opt_get d ''tiles'' of
        Arr ts \<Rightarrow>
          if \<exists>t\<in>set ts. nullish t then None
          else (case filter qualifies ts of
                  [] \<Rightarrow> Some (\<lparr>title = js_or (opt_get d ''name'') (Str ''PostHog Dashboard''),
                               type = Str ''empty'', display = Undefined,
                               primaryValue = emdash, secondaryLabel = Str '''',
                               series = []\<rparr>, False)
                | t # _ \<Rightarrow>
                    parseInsightData rt
                      (js_or (js_or (opt_get (opt_get t ''insight'') ''name'')
                                    (opt_get (opt_get t ''insight'') ''derived_name''))
                             (js_or (opt_get d ''name'') (Str ''PostHog Dashboard'')))
                      (opt_get t ''insight''))
      | _ \<Rightarrow> None)"
proof -
  obtain nm where nm: "getp d ''name'' = Some nm"
    using assms(1) by (meson getp_None_iff not_None_eq)
  obtain tl where tl: "getp d ''tiles'' = Some tl"
    using assms(1) by (meson getp_None_iff not_None_eq)
  have tt: "truthy tl" using assms(2) tl by (simp add: opt_get_def)
  show ?thesis
  proof (cases tl)
    case (Arr ts)
    show ?thesis
    proof (cases "\<exists>t\<in>set ts. nullish t")
      case True
      then show ?thesis using nm tl Arr
        by (simp add: parseDashboard_def opt_get_def js_or_def asArray_def filter_tiles Let_def)
    next
      case False
      show ?thesis
      proof (cases "filter qualifies ts")
        case Nil
        then show ?thesis using nm tl Arr False
          by (simp add: parseDashboard_def opt_get_def js_or_def asArray_def filter_tiles Let_def)
      next
        case (Cons t rest)
        then have "t \<in> set (filter qualifies ts)" by simp
        then have "t \<in> set ts" "qualifies t" by simp_all
        then have ti: "truthy (opt_get t ''insight'')" by (simp add: qualifies_def Let_def)
        have nt: "\<not> nullish t" using False \<open>t \<in> set ts\<close> by blast
        then obtain i where i: "getp t ''insight'' = Some i"
          by (meson getp_None_iff not_None_eq)
        with ti have "truthy i" by (simp add: opt_get_def)
        then obtain a b where ab: "getp i ''name'' = Some a" "getp i ''derived_name'' = Some b"
          by (meson getp_None_iff not_None_eq truthy_not_nullish)
        show ?thesis using nm tl Arr False Cons i ab
          by (simp add: parseDashboard_def opt_get_def js_or_def asArray_def filter_tiles Let_def)
      qed
    qed
  qed (use nm tl tt in \<open>auto simp: parseDashboard_def opt_get_def js_or_def asArray_def\<close>)
qed

lemma normalize_eq:
  assumes "\<not> nullish data"
  shows "normalize rt data =
     (let payload = js_or (opt_get data ''insight'') data
      in if truthy (opt_get payload ''tiles'') then parseDashboard rt payload
         else parseInsight rt payload)"
    and "\<not> nullish (js_or (opt_get data ''insight'') data)"
proof -
  obtain e where e: "getp data ''insight'' = Some e"
    using assms by (meson getp_None_iff not_None_eq)
  show p: "\<not> nullish (js_or (opt_get data ''insight'') data)"
    using assms truthy_not_nullish by (auto simp: js_or_def)
  then obtain tl where "getp (js_or (opt_get data ''insight'') data) ''tiles'' = Some tl"
    by (meson getp_None_iff not_None_eq)
  then show "normalize rt data =
     (let payload = js_or (opt_get data ''insight'') data
      in if truthy (opt_get payload ''tiles'') then parseDashboard rt payload
         else parseInsight rt payload)"
    using e by (simp add: normalize_def opt_get_def Let_def)
qed

lemma normalize_nullish: "nullish data \<Longrightarrow> normalize rt data = None"
  by (auto simp: normalize_def nullish_def)

subsection \<open>The type of the record, and when the normalizer raises\<close>

text \<open>
  C2, as the claim states it, fails: a dashboard without a tile that has a result is
  given the type \<open>empty\<close>, and a legacy \<^verbatim>\<open>filters.insight\<close> is passed on as it is.
\<close>

theorem empty_dashboard_type_not_a_kind:
  "normalize rt0 empty_dashboard =
     Some (\<lparr>title = Str ''Growth'', type = Str ''empty'', display = Undefined,
            primaryValue = emdash, secondaryLabel = Str '''', series = []\<rparr>, False)
   \<and> Str ''empty'' \<notin> set six_kinds
   \<and> map_option (\<lambda>p. type (fst p)) (normalize rt0 legacy_sql) = Some (Str ''SQL'')
   \<and> Str ''SQL'' \<notin> set six_kinds"
  by (simp add: empty_dashboard_def legacy_sql_def six_kinds_def norm_eval)

text \<open>
  C2, amended. The type of the record is one of the six kinds whenever it is resolved from
  the query object or by default, that is, when the insight has no truthy
  \<^verbatim>\<open>filters.insight\<close>; a truthy \<^verbatim>\<open>filters.insight\<close> becomes the type as it is; and a
  dashboard none of whose tiles has a result gets the type \<open>empty\<close>. The insight is the
  payload itself, or the insight of the first tile of a dashboard that has a result.
\<close>

theorem type_is_kind_or_legacy_or_empty:
  "(parseInsightData rt ttl ins = Some (c, l) \<longrightarrow> typeSpec ins (type c))
   \<and> (normalize rt data = Some (c', l') \<longrightarrow>
        (let payload = js_or (opt_get data ''insight'') data
         in if truthy (opt_get payload ''tiles'')
            then (\<exists>ts. opt_get payload ''tiles'' = Arr ts
                    \<and> (case filter qualifies ts of
                          [] \<Rightarrow> type c' = Str ''empty''
                        | t # _ \<Rightarrow> typeSpec (opt_get t ''insight'') (type c')))
            else typeSpec payload (type c')))"
proof -
  have a: "typeSpec ins (type c)" if "parseInsightData rt ttl ins = Some (c, l)" for rt ttl ins c l
  proof -
    from that have "\<not> nullish ins"
      by (metis parseInsightData_None_iff option.distinct(1))
    with that show ?thesis
      using parseInsightData_head [OF that] typeSpec_resolve by blast
  qed
  have b: "(let payload = js_or (opt_get data ''insight'') data
         in if truthy (opt_get payload ''tiles'')
            then (\<exists>ts. opt_get payload ''tiles'' = Arr ts
                    \<and> (case filter qualifies ts of
                          [] \<Rightarrow> type c' = Str ''empty''
                        | t # _ \<Rightarrow> typeSpec (opt_get t ''insight'') (type c')))
            else typeSpec payload (type c'))"
    if n: "normalize rt data = Some (c', l')"
  proof -
    have nd: "\<not> nullish data" using n normalize_nullish by fastforce
    define payload where "payload = js_or (opt_get data ''insight'') data"
    have np: "\<not> nullish payload" using normalize_eq(2) [OF nd] by (simp add: payload_def)
    show ?thesis
    proof (cases "truthy (opt_get payload ''tiles'')")
      case True
      then have pd: "parseDashboard rt payload = Some (c', l')"
        using n normalize_eq(1) [OF nd, of rt] by (simp add: payload_def Let_def)
      then obtain ts where ts: "opt_get payload ''tiles'' = Arr ts"
        using parseDashboard_eq [OF np True, of rt] by (auto split: jsval.splits)
      have "case filter qualifies ts of
              [] \<Rightarrow> type c' = Str ''empty''
            | t # _ \<Rightarrow> typeSpec (opt_get t ''insight'') (type c')"
        using pd parseDashboard_eq [OF np True, of rt] ts a
        by (auto split: list.splits if_splits)
      with True ts show ?thesis by (simp add: payload_def [symmetric] Let_def)
    next
      case False
      then have "parseInsight rt payload = Some (c', l')"
        using n normalize_eq(1) [OF nd, of rt] by (simp add: payload_def Let_def)
      then have "typeSpec payload (type c')" using a parseInsight_eq [OF np] by simp
      with False show ?thesis by (simp add: payload_def [symmetric] Let_def)
    qed
  qed
  from a b show ?thesis by blast
qed

theorem type_is_kind_or_legacy_or_empty_witness:
  "normalize rt0 funnel_query =
     Some (\<lparr>title = Str ''PostHog Insight'', type = Str ''FUNNEL'', display = Str '''',
            primaryValue = emdash, secondaryLabel = Str '''', series = []\<rparr>, False)
   \<and> parseInsightData rt0 (Str ''t'') funnel_query =
     Some (\<lparr>title = Str ''t'', type = Str ''FUNNEL'', display = Str '''',
            primaryValue = emdash, secondaryLabel = Str '''', series = []\<rparr>, False)
   \<and> typeSpec funnel_query (Str ''FUNNEL'')
   \<and> Str ''FUNNEL'' \<in> set six_kinds"
  using type_is_kind_or_legacy_or_empty [of rt0 "Str ''t''" funnel_query
      "\<lparr>title = Str ''t'', type = Str ''FUNNEL'', display = Str '''',
            primaryValue = emdash, secondaryLabel = Str '''', series = []\<rparr>" False
      funnel_query
      "\<lparr>title = Str ''PostHog Insight'', type = Str ''FUNNEL'', display = Str '''',
            primaryValue = emdash, secondaryLabel = Str '''', series = []\<rparr>" False]
  by (simp add: funnel_query_def six_kinds_def norm_eval typeSpec_def legacyType_def)

text \<open>
  C8, as the claim states it, fails: a query whose kind is a number makes type resolution
  call \<^verbatim>\<open>includes\<close> on it, before the \<^verbatim>\<open>try\<close> block, and the \<^verbatim>\<open>TypeError\<close> leaves
  the normalizer. A failure that is caught keeps the assignments made before it: for a
  paths result with a null edge the primary value is the edge count, not the dash.
\<close>

theorem numeric_kind_raises:
  "normalize rt0 numeric_kind = None
   \<and> normalize rt0 null_edge =
     Some (\<lparr>title = Str ''PostHog Insight'', type = Str ''PATHS'', display = Str '''',
            primaryValue = ''1'', secondaryLabel = Str ''total paths'', series = []\<rparr>, True)"
  by (simp add: numeric_kind_def null_edge_def norm_eval fmt_eval)

text \<open>
  C8, amended. The normalizer raises only before the \<^verbatim>\<open>try\<close> block: on a payload that
  is \<^verbatim>\<open>null\<close>, on a dashboard whose \<^verbatim>\<open>tiles\<close> is no array or holds a \<^verbatim>\<open>null\<close> tile,
  and when the type is resolved from the query and the kind read there is neither a string
  nor an array. In every other case it returns a record. A failure of the extraction is
  caught, and the record returned then holds what was assigned before the failure: the
  series is empty, except in the pie variant of the three trend types, which assigns the
  series before it sums the values and so keeps the slices when the sum throws.
\<close>

theorem normalize_raises_only_before_try:
  "(parseInsightData rt ttl ins = None \<longleftrightarrow> nullish ins \<or> typeFails ins)
   \<and> (parseInsightData rt ttl ins = Some (c, True) \<longrightarrow> series c = [] \<or> pie_record c)
   \<and> (normalize rt data = None \<longleftrightarrow>
        nullish data \<or>
        (let payload = js_or (opt_get data ''insight'') data
         in if truthy (opt_get payload ''tiles'')
            then (case opt_get payload ''tiles'' of
                    Arr ts \<Rightarrow>
                      (\<exists>t\<in>set ts. nullish t) \<or>
                      (case filter qualifies ts of
                         [] \<Rightarrow> False
                       | t # _ \<Rightarrow> typeFails (opt_get t ''insight''))
                  | _ \<Rightarrow> True)
            else typeFails payload))
   \<and> (normalize rt data = Some (c', True) \<longrightarrow> series c' = [] \<or> pie_record c')"
proof -
  have q: "\<not> nullish (opt_get t ''insight'')" if "qualifies t" for t
    using that truthy_not_nullish by (auto simp: qualifies_def Let_def)
  have hd_q: "qualifies t" if "filter qualifies ts = t # rest" for ts t rest
  proof -
    have "t \<in> set (filter qualifies ts)" using that by simp
    then show ?thesis by simp
  qed
  have c: "normalize rt data = None \<longleftrightarrow>
        nullish data \<or>
        (let payload = js_or (opt_get data ''insight'') data
         in if truthy (opt_get payload ''tiles'')
            then (case opt_get payload ''tiles'' of
                    Arr ts \<Rightarrow>
                      (\<exists>t\<in>set ts. nullish t) \<or>
                      (case filter qualifies ts of
                         [] \<Rightarrow> False
                       | t # _ \<Rightarrow> typeFails (opt_get t ''insight''))
                  | _ \<Rightarrow> True)
            else typeFails payload)"
  proof (cases "nullish data")
    case True
    then show ?thesis by (simp add: normalize_nullish)
  next
    case False
    define payload where "payload = js_or (opt_get data ''insight'') data"
    have np: "\<not> nullish payload" using normalize_eq(2) [OF False] by (simp add: payload_def)
    show ?thesis
    proof (cases "truthy (opt_get payload ''tiles'')")
      case True
      have "parseDashboard rt payload = None \<longleftrightarrow>
          (case opt_get payload ''tiles'' of
                    Arr ts \<Rightarrow>
                      (\<exists>t\<in>set ts. nullish t) \<or>
                      (case filter qualifies ts of
                         [] \<Rightarrow> False
                       | t # _ \<Rightarrow> typeFails (opt_get t ''insight''))
                  | _ \<Rightarrow> True)"
        using q hd_q
        by (auto simp: parseDashboard_eq [OF np True] parseInsightData_None_iff
            split: jsval.splits list.splits)
      with True False show ?thesis
        by (simp add: normalize_eq(1) [OF False] payload_def [symmetric] Let_def)
    next
      case F: False
      with False np show ?thesis
        by (simp add: normalize_eq(1) [OF False] payload_def [symmetric] Let_def
            parseInsight_eq parseInsightData_None_iff)
    qed
  qed
  have d: "series c' = [] \<or> pie_record c'" if n: "normalize rt data = Some (c', True)"
  proof -
    have nd: "\<not> nullish data" using n normalize_nullish by fastforce
    define payload where "payload = js_or (opt_get data ''insight'') data"
    have np: "\<not> nullish payload" using normalize_eq(2) [OF nd] by (simp add: payload_def)
    show ?thesis
    proof (cases "truthy (opt_get payload ''tiles'')")
      case True
      then have "parseDashboard rt payload = Some (c', True)"
        using n normalize_eq(1) [OF nd, of rt] by (simp add: payload_def Let_def)
      then show ?thesis
        using parseInsightData_caught
        by (auto simp: parseDashboard_eq [OF np True] split: jsval.splits list.splits if_splits)
    next
      case False
      then have "parseInsight rt payload = Some (c', True)"
        using n normalize_eq(1) [OF nd, of rt] by (simp add: payload_def Let_def)
      then show ?thesis using parseInsightData_caught parseInsight_eq [OF np] by simp
    qed
  qed
  from c d parseInsightData_None_iff parseInsightData_caught show ?thesis by blast
qed

theorem normalize_raises_only_before_try_witness:
  "\<not> nullish null_edge \<and> \<not> typeFails null_edge
   \<and> normalize rt0 null_edge =
     Some (\<lparr>title = Str ''PostHog Insight'', type = Str ''PATHS'', display = Str '''',
            primaryValue = ''1'', secondaryLabel = Str ''total paths'', series = []\<rparr>, True)
   \<and> typeFails numeric_kind \<and> normalize rt0 numeric_kind = None
   \<and> \<not> nullish pie_payload \<and> \<not> typeFails pie_payload
   \<and> parseInsightData rt0 (Str ''PostHog Insight'') pie_payload = Some (pie_caught, True)
   \<and> normalize rt0 pie_payload = Some (pie_caught, True)
   \<and> length (series pie_caught) = 2 \<and> pie_record pie_caught"
proof -
  have e: "normalize rt0 null_edge =
     Some (\<lparr>title = Str ''PostHog Insight'', type = Str ''PATHS'', display = Str '''',
            primaryValue = ''1'', secondaryLabel = Str ''total paths'', series = []\<rparr>, True)"
    by (simp add: null_edge_def norm_eval fmt_eval)
  have k: "normalize rt0 numeric_kind = None"
    by (simp add: numeric_kind_def norm_eval)
  have p: "parseInsightData rt0 (Str ''PostHog Insight'') pie_payload = Some (pie_caught, True)"
    "normalize rt0 pie_payload = Some (pie_caught, True)"
    by (simp_all add: pie_payload_def pie_caught_def norm_eval fmt_eval rd_eval)
  have n: "\<not> nullish null_edge" "\<not> nullish numeric_kind" "\<not> nullish pie_payload"
    by (simp_all add: nullish_def null_edge_def numeric_kind_def pie_payload_def)
  have l: "length (series pie_caught) = 2" by (simp add: pie_caught_def)
  from normalize_raises_only_before_try
      [of rt0 "Str ''PostHog Insight''" pie_payload pie_caught pie_payload pie_caught] p n l
  have "\<not> typeFails pie_payload \<and> pie_record pie_caught"
    by auto
  moreover from normalize_raises_only_before_try [of rt0 "Str ''t''" null_edge _ null_edge] e n
  have "\<not> typeFails null_edge"
    by (auto simp: null_edge_def js_or_def opt_get_def)
  moreover from normalize_raises_only_before_try [of rt0 "Str ''t''" numeric_kind _ numeric_kind]
    k n
  have "typeFails numeric_kind"
    by (auto simp: numeric_kind_def js_or_def opt_get_def)
  ultimately show ?thesis using e k p n l by simp
qed

subsection \<open>The values of the series\<close>









subsection \<open>Funnel, retention and paths\<close>

lemma mapMi_Some:
  assumes "\<forall>j<length xs. f (i + j) (xs ! j) = Some (g (i + j) (xs ! j))"
  shows "mapMi i f xs = Some (map (\<lambda>j. g (i + j) (xs ! j)) [0..<length xs])"
  using assms
proof (induction xs arbitrary: i)
  case Nil
  then show ?case by simp
next
  case (Cons x xs)
  have a: "f i x = Some (g i x)" using Cons.prems [rule_format, of 0] by simp
  have "\<forall>j<length xs. f (Suc i + j) (xs ! j) = Some (g (Suc i + j) (xs ! j))"
    using Cons.prems [rule_format, of "Suc j" for j] by simp
  from Cons.IH [OF this]
  have b: "mapMi (Suc i) f xs = Some (map (\<lambda>j. g (Suc i + j) (xs ! j)) [0..<length xs])" .
  have "map (\<lambda>j. g (i + j) ((x # xs) ! j)) [0..<length (x # xs)]
      = g i x # map (\<lambda>j. g (Suc i + j) (xs ! j)) [0..<length xs]"
    by (simp add: upt_conv_Cons map_Suc_upt [symmetric] del: upt_Suc)
  with a b show ?case by simp
qed

lemma getp_is_opt_get: "\<not> nullish v \<Longrightarrow> getp v k = Some (opt_get v k)"
  by (cases v) (auto simp: nullish_def opt_get_def)

lemma resolve_not_nullish: "resolveType ins = Some ty \<Longrightarrow> \<not> nullish ins"
  using resolveType_nullish by fastforce

lemma conversionRate_eq:
  assumes "\<not> nullish a" "\<not> nullish b"
    and "toNum rt (opt_get a ''count'') = Some f"
    and "toNum rt (opt_get b ''count'') = Some l"
  shows "conversionRate rt a b =
     Some (if num_gt f (Fin 0) then toFixed rt 1 (num_mul (num_div l f) (Fin 100)) else ''0'')"
  using assms by (simp add: conversionRate_def positive_def getp_is_opt_get)

lemma funnelBranch_eq:
  assumes "length rs \<ge> 2" "\<forall>s\<in>set rs. \<not> nullish s"
    and "toNum rt (opt_get (hd rs) ''count'') = Some f"
    and "toNum rt (opt_get (last rs) ''count'') = Some l"
    and "toStr rt (opt_get (hd rs) ''name'') = Some a"
    and "toStr rt (opt_get (last rs) ''name'') = Some b"
  shows "funnelBranch rt (Arr rs) c =
     (c\<lparr>primaryValue :=
          (if num_gt f (Fin 0) then toFixed rt 1 (num_mul (num_div l f) (Fin 100)) else ''0'')
          @ ''%'',
        secondaryLabel := Str (a @ '' '' @ rarrow @ '' '' @ b),
        series := map stepEntry rs\<rparr>, False)"
proof -
  have ne: "rs \<noteq> []" using assms(1) by auto
  then have h: "\<not> nullish (hd rs)" "\<not> nullish (last rs)" using assms(2) by simp_all
  have m: "mapM (\<lambda>step. do { n \<leftarrow> getp step ''name'';
                                         k \<leftarrow> getp step ''count'';
                                         Some \<lparr>label = n, val = k\<rparr> }) rs = Some (map stepEntry rs)"
    using assms(2) by (intro mapM_Some) (simp add: getp_is_opt_get stepEntry_def)
  show ?thesis
    using assms(1,5,6) h
    by (simp add: funnelBranch_def attempt_def conversionRate_eq [OF h assms(3,4)]
        getp_is_opt_get m Let_def)
qed

text \<open>
  C4. For a FUNNEL insight whose result has at least two steps, the conversion rate is
  the count of the last step over the count of the first, times 100, printed with one
  decimal by \<^verbatim>\<open>toFixed(1)\<close>, and \<open>0\<close> when the count of the first step is not
  positive: \<open>25.0\<close> for the counts 100, 100, 25, and \<open>0\<close> for a first count of
  zero. The quotient and the product are doubles, and the decimal printed is the tenth
  nearest to the product, the upper one at a tie: the counts 80 and 23 give \<open>28.7\<close>, as
  their product is the double just below \<open>28.75\<close>, and 400 and 1 give \<open>0.3\<close>. The primary
  value is the rate followed by a percent sign, the secondary label the name of the first
  step, an arrow and the name of the last, and the series has one entry per step, in
  order, with the name of the step as label and its count as value. The steps are taken
  not to be \<^verbatim>\<open>null\<close>, the two counts to have a number and the two names a string: a
  name that has none makes the extraction fail after the rate, and the record is returned
  without label and series.
\<close>

theorem funnel_extraction:
  assumes "resolveType ins = Some (Str ''FUNNEL'')"
    and "resolveResult ins = Some (Arr rs)"
    and "length rs \<ge> 2"
    and "\<forall>s\<in>set rs. \<not> nullish s"
    and "toNum rt (opt_get (hd rs) ''count'') = Some f"
    and "toNum rt (opt_get (last rs) ''count'') = Some l"
    and "toStr rt (opt_get (hd rs) ''name'') = Some a"
    and "toStr rt (opt_get (last rs) ''name'') = Some b"
  shows "\<exists>c. parseInsightData rt ttl ins = Some (c, False)
      \<and> primaryValue c =
          (if num_gt f (Fin 0) then toFixed rt 1 (num_mul (num_div l f) (Fin 100)) else ''0'')
          @ ''%''
      \<and> secondaryLabel c = Str (a @ '' '' @ rarrow @ '' '' @ b)
      \<and> series c = map stepEntry rs
      \<and> (\<forall>x. 0 \<le> x \<and> x < 10 ^ 21 \<longrightarrow>
            (\<exists>n. toFixed rt 1 (Fin x) = decimal (n div 10) @ ''.'' @ [digit (n mod 10)]
                \<and> real n / 10 - 1 / 20 \<le> x \<and> x < real n / 10 + 1 / 20))
      \<and> conversionRate rt (step ''a'' 100) (step ''b'' 25) = Some ''25.0''
      \<and> conversionRate rt (step ''a'' 0) (step ''b'' 25) = Some ''0''
      \<and> conversionRate rt (step ''a'' 80) (step ''b'' 23) = Some ''28.7''
      \<and> conversionRate rt (step ''a'' 3) (step ''b'' 2) = Some ''66.7''
      \<and> conversionRate rt (step ''a'' 400) (step ''b'' 1) = Some ''0.3''
      \<and> conversionRate rt (step ''a'' 7) (step ''b'' 7) = Some ''100.0''
      \<and> normalize rt funnel_bad_name =
          Some (\<lparr>title = Str ''PostHog Insight'', type = Str ''FUNNEL'', display = Str '''',
                 primaryValue = ''25.0%'', secondaryLabel = Str '''', series = []\<rparr>, True)"
proof -
  obtain d where d: "resolveDisplay ins = Some d"
    using resolveDisplay_total [OF resolve_not_nullish [OF assms(1)]] by blast
  have e: "conversionRate rt (step ''a'' 100) (step ''b'' 25) = Some ''25.0''"
    "conversionRate rt (step ''a'' 0) (step ''b'' 25) = Some ''0''"
    "conversionRate rt (step ''a'' 80) (step ''b'' 23) = Some ''28.7''"
    "conversionRate rt (step ''a'' 3) (step ''b'' 2) = Some ''66.7''"
    "conversionRate rt (step ''a'' 400) (step ''b'' 1) = Some ''0.3''"
    "conversionRate rt (step ''a'' 7) (step ''b'' 7) = Some ''100.0''"
    by (simp_all add: conversionRate_def positive_def step_def fmt_eval rd_eval)
  have g: "normalize rt funnel_bad_name =
          Some (\<lparr>title = Str ''PostHog Insight'', type = Str ''FUNNEL'', display = Str '''',
                 primaryValue = ''25.0%'', secondaryLabel = Str '''', series = []\<rparr>, True)"
    by (simp add: funnel_bad_name_def funnel_of_def step_def norm_eval fmt_eval rd_eval)
  have t: "\<forall>x. 0 \<le> x \<and> x < 10 ^ 21 \<longrightarrow>
            (\<exists>n. toFixed rt 1 (Fin x) = decimal (n div 10) @ ''.'' @ [digit (n mod 10)]
                \<and> real n / 10 - 1 / 20 \<le> x \<and> x < real n / 10 + 1 / 20)"
    using toFixed_nearest_tenth by blast
  have "\<exists>c. parseInsightData rt ttl ins = Some (c, False)
      \<and> primaryValue c =
          (if num_gt f (Fin 0) then toFixed rt 1 (num_mul (num_div l f) (Fin 100)) else ''0'')
          @ ''%''
      \<and> secondaryLabel c = Str (a @ '' '' @ rarrow @ '' '' @ b)
      \<and> series c = map stepEntry rs"
    using assms(1,2) d
    by (simp add: parseInsightData_def funnelBranch_eq [OF assms(3-8)])
  with e g t show ?thesis by blast
qed

theorem funnel_extraction_witness:
  "resolveType funnel_payload = Some (Str ''FUNNEL'')
   \<and> resolveResult funnel_payload
       = Some (Arr [step ''visit'' 100, step ''signup'' 100, step ''pay'' 25])
   \<and> toNum rt0 (opt_get (step ''visit'' 100) ''count'') = Some (Fin 100)
   \<and> toNum rt0 (opt_get (step ''pay'' 25) ''count'') = Some (Fin 25)
   \<and> toStr rt0 (opt_get (step ''visit'' 100) ''name'') = Some ''visit''
   \<and> toStr rt0 (opt_get (step ''pay'' 25) ''name'') = Some ''pay''
   \<and> parseInsightData rt0 (Str ''Checkout'') funnel_payload =
       Some (\<lparr>title = Str ''Checkout'', type = Str ''FUNNEL'', display = Str '''',
              primaryValue = ''25.0%'',
              secondaryLabel = Str (''visit '' @ rarrow @ '' pay''),
              series = [\<lparr>label = Str ''visit'', val = Num (Fin 100)\<rparr>,
                        \<lparr>label = Str ''signup'', val = Num (Fin 100)\<rparr>,
                        \<lparr>label = Str ''pay'', val = Num (Fin 25)\<rparr>]\<rparr>, False)"
proof -
  have h: "resolveType funnel_payload = Some (Str ''FUNNEL'')"
    "resolveResult funnel_payload
       = Some (Arr [step ''visit'' 100, step ''signup'' 100, step ''pay'' 25])"
    "toNum rt0 (opt_get (step ''visit'' 100) ''count'') = Some (Fin 100)"
    "toNum rt0 (opt_get (step ''pay'' 25) ''count'') = Some (Fin 25)"
    "toStr rt0 (opt_get (step ''visit'' 100) ''name'') = Some ''visit''"
    "toStr rt0 (opt_get (step ''pay'' 25) ''name'') = Some ''pay''"
    by (simp_all add: funnel_payload_def funnel_of_def step_def norm_eval)
  have n: "\<forall>s\<in>set [step ''visit'' 100, step ''signup'' 100, step ''pay'' 25]. \<not> nullish s"
    by (simp add: step_def nullish_def)
  from funnel_extraction [of funnel_payload
      "[step ''visit'' 100, step ''signup'' 100, step ''pay'' 25]" rt0 "Fin 100" "Fin 25"
      "''visit''" "''pay''" "Str ''Checkout''"] h n
  obtain c where c: "parseInsightData rt0 (Str ''Checkout'') funnel_payload = Some (c, False)"
    by auto
  have "parseInsightData rt0 (Str ''Checkout'') funnel_payload =
       Some (\<lparr>title = Str ''Checkout'', type = Str ''FUNNEL'', display = Str '''',
              primaryValue = ''25.0%'',
              secondaryLabel = Str (''visit '' @ rarrow @ '' pay''),
              series = [\<lparr>label = Str ''visit'', val = Num (Fin 100)\<rparr>,
                        \<lparr>label = Str ''signup'', val = Num (Fin 100)\<rparr>,
                        \<lparr>label = Str ''pay'', val = Num (Fin 25)\<rparr>]\<rparr>, False)"
    by (simp add: funnel_payload_def funnel_of_def step_def norm_eval fmt_eval rd_eval)
  with h c show ?thesis by simp
qed

lemma retentionBranch_eq:
  assumes "opt_get latest ''values'' = Arr vs"
    and "\<forall>v\<in>set vs. \<not> nullish v"
    and "day0Count = js_or (opt_get (index rt (Arr vs) 0) ''count'') (Num (Fin 0))"
    and "toNum rt day0Count = Some d"
    and "\<forall>v\<in>set vs. toNum rt (opt_get v ''count'') \<noteq> None"
    and "ser = map (\<lambda>i. \<lparr>label = Str (''Day '' @ decimal i),
                     val = Num (if num_gt d (Fin 0)
                                then Math_round (num_mul (num_div (countNum rt (vs ! i)) d) (Fin 100))
                                else Fin 0)\<rparr>) [0..<length vs]"
  shows "\<exists>pv. retentionBranch rt (Arr (latest # rest)) c =
          (c\<lparr>series := ser, primaryValue := pv,
             secondaryLabel := Str (if length vs > 1 then ''Day 1 retention''
                                    else ''Retained (Day 0)'')\<rparr>, False)
        \<and> (if length vs > 1
            then (\<exists>x. val (ser ! 1) = Num x \<and> pv = numToString rt x @ ''%'')
            else formatNumber rt day0Count = Some pv)"
proof -
  have nl: "\<not> nullish latest" using assms(1) by (auto simp: opt_get_def nullish_def)
  define g where "g = (\<lambda>i (v::jsval). \<lparr>label = Str (''Day '' @ decimal i),
                     val = Num (if num_gt d (Fin 0)
                                then Math_round (num_mul (num_div (countNum rt v) d) (Fin 100))
                                else Fin 0)\<rparr>)"
  have "retentionPoint rt day0Count j v = Some (g j v)" if "v \<in> set vs" for j v
  proof -
    from that assms(5) obtain n where "toNum rt (opt_get v ''count'') = Some n" by auto
    with that assms(2,4) show ?thesis
      by (simp add: retentionPoint_def positive_def g_def getp_is_opt_get countNum_def)
  qed
  then have "\<forall>j<length vs. retentionPoint rt day0Count (0 + j) (vs ! j) = Some (g (0 + j) (vs ! j))"
    by simp
  then have "mapMi 0 (retentionPoint rt day0Count) vs
      = Some (map (\<lambda>j. g (0 + j) (vs ! j)) [0..<length vs])"
    by (rule mapMi_Some)
  then have m: "mapMi 0 (retentionPoint rt day0Count) vs = Some ser"
    by (simp add: g_def assms(6))
  have len: "length ser = length vs" by (simp add: assms(6))
  obtain f where f: "formatNumber rt day0Count = Some f"
    using formatNumber_returns [OF assms(4)] by blast
  have branch: "retentionBranch rt (Arr (latest # rest)) c =
      (let c1 = c\<lparr>series := ser\<rparr> in
                 if length ser > 1
                 then attempt (do { s \<leftarrow> js_add rt (val (ser ! 1)) (Str ''%''); toStr rt s }) c1
                        (\<lambda>pv. (c1\<lparr>primaryValue := pv,
                                   secondaryLabel := Str ''Day 1 retention''\<rparr>, False))
                 else attempt (formatNumber rt day0Count) c1
                        (\<lambda>pv. (c1\<lparr>primaryValue := pv,
                                   secondaryLabel := Str ''Retained (Day 0)''\<rparr>, False)))"
    using nl assms(1) m
    by (simp add: retentionBranch_def attempt_def getp_is_opt_get js_or_def [of "Arr vs"]
        asArray_def Let_def assms(3) [symmetric] del: index.simps)
  show ?thesis
  proof (cases "length vs > 1")
    case True
    then obtain x where x: "val (ser ! 1) = Num x" by (simp add: assms(6))
    with True len branch show ?thesis
      by (simp add: attempt_def js_add_def is_stringy_def)
  next
    case False
    with len branch f show ?thesis by (simp add: attempt_def)
  qed
qed

text \<open>
  C5. For a RETENTION insight the first cohort of the result is used. Entry \<open>i\<close> of the
  series has the label \<open>Day i\<close> and the value
  \<^verbatim>\<open>Math.round(count_i / day0Count * 100)\<close>, or \<open>0\<close> when the day-0 count is not
  positive. The quotient and the product are doubles, and \<^verbatim>\<open>Math.round\<close> takes the
  integer nearest to the product, the upper one at a tie: of 200, 29 are \<open>14\<close> percent
  (the product is the double just below \<open>14.5\<close>), of 40, 23 are \<open>57\<close>, and of 8, 1 is
  \<open>13\<close>. With at least two days the primary value is the value of day 1 followed by a
  percent sign and the secondary label is \<open>Day 1 retention\<close>; otherwise they are the
  formatted day-0 count and \<open>Retained (Day 0)\<close>. The cohort with the counts 100, 40, 10
  gives the series 100, 40, 10 with the labels Day 0 to Day 2, the primary value \<open>40%\<close>
  and the secondary label \<open>Day 1 retention\<close>. The days are taken not to be \<^verbatim>\<open>null\<close>
  and their counts to have a number.
\<close>

theorem retention_extraction:
  assumes "resolveType ins = Some (Str ''RETENTION'')"
    and "resolveResult ins = Some (Arr (latest # rest))"
    and "opt_get latest ''values'' = Arr vs"
    and "\<forall>v\<in>set vs. \<not> nullish v"
    and "day0Count = js_or (opt_get (index rt (Arr vs) 0) ''count'') (Num (Fin 0))"
    and "toNum rt day0Count = Some d"
    and "\<forall>v\<in>set vs. toNum rt (opt_get v ''count'') \<noteq> None"
  shows "\<exists>c. parseInsightData rt ttl ins = Some (c, False)
      \<and> length (series c) = length vs
      \<and> (\<forall>i<length vs.
            label (series c ! i) = Str (''Day '' @ decimal i)
            \<and> val (series c ! i) =
                Num (if num_gt d (Fin 0)
                     then Math_round (num_mul (num_div (countNum rt (vs ! i)) d) (Fin 100))
                     else Fin 0))
      \<and> (if length vs \<ge> 2
          then (\<exists>x. val (series c ! 1) = Num x \<and> primaryValue c = numToString rt x @ ''%'')
               \<and> secondaryLabel c = Str ''Day 1 retention''
          else formatNumber rt day0Count = Some (primaryValue c)
               \<and> secondaryLabel c = Str ''Retained (Day 0)'')
      \<and> (\<forall>x. \<exists>n. Math_round (Fin x) = Fin (of_int n)
                 \<and> of_int n - 1 / 2 \<le> x \<and> x < of_int n + 1 / 2)
      \<and> retentionPoint rt (Num (Fin 200)) 1 (day 29)
          = Some \<lparr>label = Str ''Day 1'', val = Num (Fin 14)\<rparr>
      \<and> retentionPoint rt (Num (Fin 40)) 2 (day 23)
          = Some \<lparr>label = Str ''Day 2'', val = Num (Fin 57)\<rparr>
      \<and> retentionPoint rt (Num (Fin 8)) 3 (day 1)
          = Some \<lparr>label = Str ''Day 3'', val = Num (Fin 13)\<rparr>
      \<and> retentionPoint rt (Num (Fin 3)) 4 (day 2)
          = Some \<lparr>label = Str ''Day 4'', val = Num (Fin 67)\<rparr>
      \<and> retentionPoint rt (Num (Fin 0)) 1 (day 2)
          = Some \<lparr>label = Str ''Day 1'', val = Num (Fin 0)\<rparr>
      \<and> map_option fst (normalize rt retention_payload) =
          Some \<lparr>title = Str ''PostHog Insight'', type = Str ''RETENTION'', display = Str '''',
                primaryValue = ''40%'', secondaryLabel = Str ''Day 1 retention'',
                series = [\<lparr>label = Str ''Day 0'', val = Num (Fin 100)\<rparr>,
                          \<lparr>label = Str ''Day 1'', val = Num (Fin 40)\<rparr>,
                          \<lparr>label = Str ''Day 2'', val = Num (Fin 10)\<rparr>]\<rparr>"
proof -
  obtain dp where dp: "resolveDisplay ins = Some dp"
    using resolveDisplay_total [OF resolve_not_nullish [OF assms(1)]] by blast
  have e: "map_option fst (normalize rt retention_payload) =
          Some \<lparr>title = Str ''PostHog Insight'', type = Str ''RETENTION'', display = Str '''',
                primaryValue = ''40%'', secondaryLabel = Str ''Day 1 retention'',
                series = [\<lparr>label = Str ''Day 0'', val = Num (Fin 100)\<rparr>,
                          \<lparr>label = Str ''Day 1'', val = Num (Fin 40)\<rparr>,
                          \<lparr>label = Str ''Day 2'', val = Num (Fin 10)\<rparr>]\<rparr>"
    by (simp add: retention_payload_def day_def norm_eval fmt_eval rd_eval)
  have p: "retentionPoint rt (Num (Fin 200)) 1 (day 29)
          = Some \<lparr>label = Str ''Day 1'', val = Num (Fin 14)\<rparr>"
    "retentionPoint rt (Num (Fin 40)) 2 (day 23)
          = Some \<lparr>label = Str ''Day 2'', val = Num (Fin 57)\<rparr>"
    "retentionPoint rt (Num (Fin 8)) 3 (day 1)
          = Some \<lparr>label = Str ''Day 3'', val = Num (Fin 13)\<rparr>"
    "retentionPoint rt (Num (Fin 3)) 4 (day 2)
          = Some \<lparr>label = Str ''Day 4'', val = Num (Fin 67)\<rparr>"
    "retentionPoint rt (Num (Fin 0)) 1 (day 2)
          = Some \<lparr>label = Str ''Day 1'', val = Num (Fin 0)\<rparr>"
    by (simp_all add: retentionPoint_def positive_def day_def num_gt_def rd_eval
        decimal.simps digit_def)
  have r: "\<forall>x. \<exists>n. Math_round (Fin x) = Fin (of_int n)
                 \<and> of_int n - 1 / 2 \<le> x \<and> x < of_int n + 1 / 2"
  proof
    fix x :: real
    have "of_int \<lfloor>x + 1 / 2\<rfloor> \<le> x + 1 / 2" "x + 1 / 2 < of_int \<lfloor>x + 1 / 2\<rfloor> + 1"
      by linarith+
    then show "\<exists>n. Math_round (Fin x) = Fin (of_int n)
                 \<and> of_int n - 1 / 2 \<le> x \<and> x < of_int n + 1 / 2"
      by (intro exI [of _ "\<lfloor>x + 1 / 2\<rfloor>"]) (simp add: field_simps)
  qed
  define ser where "ser = map (\<lambda>i. \<lparr>label = Str (''Day '' @ decimal i),
                     val = Num (if num_gt d (Fin 0)
                                then Math_round (num_mul (num_div (countNum rt (vs ! i)) d) (Fin 100))
                                else Fin 0)\<rparr>) [0..<length vs]"
  define c0 where "c0 = \<lparr>title = ttl, type = Str ''RETENTION'', display = dp,
      primaryValue = emdash, secondaryLabel = Str '''', series = []\<rparr>"
  from retentionBranch_eq [OF assms(3-7) ser_def, of rest c0]
  obtain pv where pv: "retentionBranch rt (Arr (latest # rest)) c0 =
          (c0\<lparr>series := ser, primaryValue := pv,
             secondaryLabel := Str (if length vs > 1 then ''Day 1 retention''
                                    else ''Retained (Day 0)'')\<rparr>, False)"
     "if length vs > 1
            then (\<exists>x. val (ser ! 1) = Num x \<and> pv = numToString rt x @ ''%'')
            else formatNumber rt day0Count = Some pv"
    by blast
  define c where "c = c0\<lparr>series := ser, primaryValue := pv,
             secondaryLabel := Str (if length vs > 1 then ''Day 1 retention''
                                    else ''Retained (Day 0)'')\<rparr>"
  have 1: "parseInsightData rt ttl ins = Some (c, False)"
    using assms(1,2) dp pv(1) by (simp add: parseInsightData_def c_def c0_def)
  have 2: "length (series c) = length vs" by (simp add: c_def ser_def)
  have 3: "\<forall>i<length vs.
            label (series c ! i) = Str (''Day '' @ decimal i)
            \<and> val (series c ! i) =
                Num (if num_gt d (Fin 0)
                     then Math_round (num_mul (num_div (countNum rt (vs ! i)) d) (Fin 100))
                     else Fin 0)"
    by (simp add: c_def ser_def)
  have 4: "if length vs \<ge> 2
          then (\<exists>x. val (series c ! 1) = Num x \<and> primaryValue c = numToString rt x @ ''%'')
               \<and> secondaryLabel c = Str ''Day 1 retention''
          else formatNumber rt day0Count = Some (primaryValue c)
               \<and> secondaryLabel c = Str ''Retained (Day 0)''"
  proof (cases "length vs \<ge> 2")
    case True
    then have "length vs > 1" by simp
    with pv(2) True show ?thesis by (simp add: c_def)
  next
    case False
    then have "\<not> length vs > 1" by simp
    with pv(2) False show ?thesis by (simp add: c_def)
  qed
  from 1 2 3 4 r p e show ?thesis by blast
qed

theorem retention_extraction_witness:
  "resolveType retention_payload = Some (Str ''RETENTION'')
   \<and> resolveResult retention_payload
       = Some (Arr [Obj [(''count'', Num (Fin 100)),
                         (''values'', Arr [day 100, day 40, day 10])]])
   \<and> toNum rt0 (Num (Fin 100)) = Some (Fin 100)
   \<and> parseInsightData rt0 (Str ''Retention'') retention_payload =
       Some (\<lparr>title = Str ''Retention'', type = Str ''RETENTION'', display = Str '''',
                primaryValue = ''40%'', secondaryLabel = Str ''Day 1 retention'',
                series = [\<lparr>label = Str ''Day 0'', val = Num (Fin 100)\<rparr>,
                          \<lparr>label = Str ''Day 1'', val = Num (Fin 40)\<rparr>,
                          \<lparr>label = Str ''Day 2'', val = Num (Fin 10)\<rparr>]\<rparr>, False)"
proof -
  have h: "resolveType retention_payload = Some (Str ''RETENTION'')"
    "resolveResult retention_payload
       = Some (Arr [Obj [(''count'', Num (Fin 100)),
                         (''values'', Arr [day 100, day 40, day 10])]])"
    "opt_get (Obj [(''count'', Num (Fin 100)), (''values'', Arr [day 100, day 40, day 10])])
       ''values'' = Arr [day 100, day 40, day 10]"
    "Num (Fin 100) = js_or (opt_get (index rt0 (Arr [day 100, day 40, day 10]) 0) ''count'')
       (Num (Fin 0))"
    "toNum rt0 (Num (Fin 100)) = Some (Fin 100)"
    by (simp_all add: retention_payload_def day_def norm_eval)
  have n: "\<forall>v\<in>set [day 100, day 40, day 10]. \<not> nullish v"
    "\<forall>v\<in>set [day 100, day 40, day 10]. toNum rt0 (opt_get v ''count'') \<noteq> None"
    by (simp_all add: day_def nullish_def opt_get_def)
  from retention_extraction [OF h(1,2,3) n(1) h(4,5) n(2), of "Str ''Retention''"]
  obtain c where c: "parseInsightData rt0 (Str ''Retention'') retention_payload = Some (c, False)"
    by blast
  have "parseInsightData rt0 (Str ''Retention'') retention_payload =
       Some (\<lparr>title = Str ''Retention'', type = Str ''RETENTION'', display = Str '''',
                primaryValue = ''40%'', secondaryLabel = Str ''Day 1 retention'',
                series = [\<lparr>label = Str ''Day 0'', val = Num (Fin 100)\<rparr>,
                          \<lparr>label = Str ''Day 1'', val = Num (Fin 40)\<rparr>,
                          \<lparr>label = Str ''Day 2'', val = Num (Fin 10)\<rparr>]\<rparr>, False)"
    by (simp add: retention_payload_def day_def norm_eval fmt_eval rd_eval)
  with h c show ?thesis by simp
qed

subsection \<open>Escaping\<close>

lemma replaceAll_concat:
  "replaceAll c r (concat (map f s)) = concat (map (\<lambda>x. replaceAll c r (f x)) s)"
  by (induction s) (simp_all add: replaceAll_def)

lemma replaceAll_as_concat: "replaceAll c r s = concat (map (\<lambda>x. if x = c then r else [x]) s)"
  by (simp add: replaceAll_def)

lemma entity_chain:
  "replaceAll (CHR 0x27) ''&#39;''
     (replaceAll (CHR 0x22) ''&quot;''
       (replaceAll (CHR ''>'') ''&gt;''
         (replaceAll (CHR ''<'') ''&lt;''
           (if x = CHR ''&'' then ''&amp;'' else [x])))) = entity x"
  by (simp add: replaceAll_def entity_def)

lemma esc_string_entities: "esc_string s = concat (map entity s)"
proof -
  have "esc_string s =
      concat (map (\<lambda>x. replaceAll (CHR 0x27) ''&#39;''
     (replaceAll (CHR 0x22) ''&quot;''
       (replaceAll (CHR ''>'') ''&gt;''
         (replaceAll (CHR ''<'') ''&lt;''
           (if x = CHR ''&'' then ''&amp;'' else [x]))))) s)"
    unfolding esc_string_def
    by (subst replaceAll_as_concat [of "CHR ''&''"]) (simp only: replaceAll_concat)
  then show ?thesis by (simp only: entity_chain)
qed

lemma escaped_entity: "escaped rest \<Longrightarrow> escaped (entity c @ rest)"
  by (simp add: entity_def startsWith_def)

lemma escaped_esc_string: "escaped (esc_string s)"
  unfolding esc_string_entities
  by (induction s) (simp_all add: escaped_entity)

lemma esc_Some: "esc rt v = Some s \<Longrightarrow> \<exists>raw. toStr rt v = Some raw \<and> s = esc_string raw"
  by (auto simp: esc_def)

lemma text_concat_mapM:
  assumes "mapM f xs = Some rows" "Text s \<in> set (concat rows)"
    and "\<And>x row. f x = Some row \<Longrightarrow> Text s \<in> set row \<Longrightarrow> \<exists>raw. s = esc_string raw"
  shows "\<exists>raw. s = esc_string raw"
proof -
  from assms(2) obtain row where row: "row \<in> set rows" "Text s \<in> set row" by auto
  from mapM_set [OF assms(1) row(1)] obtain x where "f x = Some row" by blast
  from assms(3) [OF this row(2)] show ?thesis .
qed

lemma text_concat_mapMi:
  assumes "mapMi i f xs = Some rows" "Text s \<in> set (concat rows)"
    and "\<And>j x row. f j x = Some row \<Longrightarrow> Text s \<in> set row \<Longrightarrow> \<exists>raw. s = esc_string raw"
  shows "\<exists>raw. s = esc_string raw"
proof -
  from assms(2) obtain row where row: "row \<in> set rows" "Text s \<in> set row" by auto
  from mapMi_set [OF assms(1) row(1)] obtain j x where "f j x = Some row" by blast
  from assms(3) [OF this row(2)] show ?thesis .
qed

lemma text_yAxisSvg:
  assumes "yAxisSvg rt ts = Some ps" "Text s \<in> set ps"
  shows "\<exists>raw. s = esc_string raw"
proof -
  from assms(1) obtain rows where rows:
    "mapM (\<lambda>tick. do { f \<leftarrow> formatAxisNum rt (Num tick);
                       Some [Markup, Text (esc_string f), Markup] }) ts = Some rows"
    "ps = concat rows"
    by (auto simp: yAxisSvg_def)
  show ?thesis
    by (rule text_concat_mapM [OF rows(1)]) (use assms(2) rows(2) in \<open>auto split: bind_splits\<close>)
qed

lemma text_xAxisSvg:
  assumes "xAxisSvg rt ls = Some ps" "Text s \<in> set ps"
  shows "\<exists>raw. s = esc_string raw"
proof -
  from assms(1) obtain rows where rows:
    "mapM (\<lambda>i. do { l \<leftarrow> esc rt (js_or (index rt (Arr ls) i) (Str ''''));
                        Some [Markup, Text l, Markup] })
          (evenlySpaced (length ls) (min (length ls) 6)) = Some rows"
    "ps = concat rows"
    by (auto simp: xAxisSvg_def)
  show ?thesis
    by (rule text_concat_mapM [OF rows(1)])
      (use assms(2) rows(2) in \<open>auto simp: esc_def split: bind_splits\<close>)
qed

lemma text_renderLineChart:
  "renderLineChart rt ser = Some ps \<Longrightarrow> Text s \<in> set ps \<Longrightarrow> \<exists>raw. s = esc_string raw"
  by (auto simp: renderLineChart_def split: bind_splits dest: text_yAxisSvg text_xAxisSvg)

lemma text_renderBarChart:
  "renderBarChart rt ser = Some ps \<Longrightarrow> Text s \<in> set ps \<Longrightarrow> \<exists>raw. s = esc_string raw"
  by (auto simp: renderBarChart_def split: bind_splits dest: text_yAxisSvg text_xAxisSvg)

lemma text_renderFunnelChart:
  assumes "renderFunnelChart rt ser = Some ps" "Text s \<in> set ps"
  shows "\<exists>raw. s = esc_string raw"
proof -
  define m where "m = js_or (val (hd ser)) (Num (Fin 1))"
  have "renderFunnelChart rt ser =
      (if ser = [] then None
       else do { rows \<leftarrow> mapMi 0 (funnelRow rt m) ser;
                 Some ([Markup] @ concat rows @ [Markup]) })"
    by (cases ser) (simp_all add: renderFunnelChart_def m_def)
  with assms(1) obtain rows where rows: "mapMi 0 (funnelRow rt m) ser = Some rows"
    "ps = [Markup] @ concat rows @ [Markup]"
    by (auto split: if_splits bind_splits)
  from assms(2) rows(2) have "Text s \<in> set (concat rows)" by auto
  then show ?thesis
    by (rule text_concat_mapMi [OF rows(1)]) (auto simp: funnelRow_def split: bind_splits)
qed

lemma text_renderBigNumber:
  "renderBigNumber rt pv sl = Some ps \<Longrightarrow> Text s \<in> set ps \<Longrightarrow> \<exists>raw. s = esc_string raw"
  by (auto simp: renderBigNumber_def esc_def split: bind_splits if_splits)

lemma text_renderPieChart:
  assumes "renderPieChart rt ser = Some ps" "Text s \<in> set ps"
  shows "\<exists>raw. s = esc_string raw"
proof -
  from assms(1) obtain rows where rows: "mapM (legendItem rt) (take 6 ser) = Some rows"
    "ps = [Markup] @ map (\<lambda>s. Markup) ser @ concat rows @ [Markup]"
    by (auto simp: renderPieChart_def split: bind_splits)
  from assms(2) rows(2) have "Text s \<in> set (concat rows)" by auto
  then show ?thesis
    by (rule text_concat_mapM [OF rows(1)]) (auto simp: legendItem_def split: bind_splits)
qed

lemma text_renderPathsList:
  assumes "renderPathsList rt ser t = Some ps" "Text s \<in> set ps"
  shows "\<exists>raw. s = esc_string raw"
proof -
  from assms(1) obtain rows where rows: "mapM (pathRow rt) ser = Some rows"
    "ps = [Markup, Text (esc_string t), Markup] @ concat rows @ [Markup]"
    by (auto simp: renderPathsList_def split: bind_splits)
  from assms(2) rows(2) consider "s = esc_string t" | "Text s \<in> set (concat rows)" by auto
  then show ?thesis
  proof cases
    case 1
    then show ?thesis by blast
  next
    case 2
    then show ?thesis
      by (rule text_concat_mapM [OF rows(1)]) (auto simp: pathRow_def split: bind_splits)
  qed
qed

lemma text_invoke:
  assumes "invoke rt r c = Some ps" "Text s \<in> set ps"
  shows "\<exists>raw. s = esc_string raw"
  using assms text_renderLineChart text_renderBarChart text_renderFunnelChart
    text_renderBigNumber text_renderPieChart text_renderPathsList
  by (cases r) (auto simp: invoke_def renderEmptyChart_def)

text \<open>
  C10. Every string that the composed markup sets as text (the meta line, the title in
  the header and in the footer bar, and the labels, captions and formatted values of the
  renderers) has gone through \<^verbatim>\<open>esc\<close>, which replaces each of the five characters
  \<^verbatim>\<open>&\<close>, \<^verbatim>\<open><\<close>, \<^verbatim>\<open>>\<close>, the double and the single quote by its entity and leaves none
  of them behind; the title \<^verbatim>\<open><script>&\<close> followed by the two quotes is set as
  \<^verbatim>\<open>&lt;script&gt;&amp;&quot;&#39;\<close>.
\<close>

theorem markup_text_is_escaped:
  "(renderMarkup rt c = Some ps \<longrightarrow>
      (\<exists>ml t chart. metaLine rt c = Some ml \<and> esc rt (title c) = Some t
         \<and> ps = [Markup, Text (esc_string ml), Markup, Text t, Markup]
                @ chart @ [Markup, Text t, Markup])
      \<and> (\<forall>s. Text s \<in> set ps \<longrightarrow> (\<exists>raw. s = esc_string raw) \<and> escaped s))
   \<and> esc rt v = map_option (\<lambda>raw. concat (map entity raw)) (toStr rt v)
   \<and> esc_string raw = concat (map entity raw)
   \<and> escaped (esc_string raw)
   \<and> (\<forall>s. esc rt v = Some s \<longrightarrow> escaped s)
   \<and> esc rt (Str script_title) = Some ''&lt;script&gt;&amp;&quot;&#39;''"
proof -
  have a: "(\<exists>ml t chart. metaLine rt c = Some ml \<and> esc rt (title c) = Some t
         \<and> ps = [Markup, Text (esc_string ml), Markup, Text t, Markup]
                @ chart @ [Markup, Text t, Markup])
      \<and> (\<forall>s. Text s \<in> set ps \<longrightarrow> (\<exists>raw. s = esc_string raw) \<and> escaped s)"
    if "renderMarkup rt c = Some ps"
  proof -
    from that obtain r chart ml t where r: "chartOf c = Some r" "invoke rt r c = Some chart"
      "metaLine rt c = Some ml" "esc rt (title c) = Some t"
      and ps: "ps = [Markup, Text (esc_string ml), Markup, Text t, Markup]
                    @ chart @ [Markup, Text t, Markup]"
      by (rule renderMarkup_parts)
    from esc_Some [OF r(4)] obtain rawt where t: "t = esc_string rawt" by blast
    have "\<exists>raw. s = esc_string raw" if "Text s \<in> set ps" for s
      using that ps t text_invoke [OF r(2)] by auto
    then have "\<forall>s. Text s \<in> set ps \<longrightarrow> (\<exists>raw. s = esc_string raw) \<and> escaped s"
      using escaped_esc_string by blast
    with r(3,4) ps show ?thesis by blast
  qed
  have b: "esc rt v = map_option (\<lambda>raw. concat (map entity raw)) (toStr rt v)"
    by (cases "toStr rt v") (simp_all add: esc_def esc_string_entities)
  have c: "esc rt (Str script_title) = Some ''&lt;script&gt;&amp;&quot;&#39;''"
    by (simp add: esc_def esc_string_entities script_title_def entity_def)
  have d: "\<forall>s. esc rt v = Some s \<longrightarrow> escaped s"
    using esc_Some escaped_esc_string by blast
  from a b c d esc_string_entities escaped_esc_string show ?thesis by blast
qed

theorem markup_text_is_escaped_witness:
  "renderMarkup rt0 script_record = Some script_markup
   \<and> esc rt0 (Str script_title) = Some ''&lt;script&gt;&amp;&quot;&#39;''
   \<and> escaped ''&lt;script&gt;&amp;&quot;&#39;''
   \<and> escaped (''&lt;a&gt; '' @ rarrow @ '' b&amp;c'')"
proof -
  have r: "renderMarkup rt0 script_record = Some script_markup"
    by (simp add: script_record_def script_title_def script_markup_def render_eval fmt_eval
        rd_eval rarrow_def)
  have e: "escaped ''&lt;script&gt;&amp;&quot;&#39;''
      \<and> escaped (''&lt;a&gt; '' @ rarrow @ '' b&amp;c'')"
    by (simp add: startsWith_def rarrow_def)
  from markup_text_is_escaped [of rt0 script_record script_markup "Str script_title" script_title] r
  have "esc rt0 (Str script_title) = Some ''&lt;script&gt;&amp;&quot;&#39;''"
    by blast
  with r e show ?thesis by blast
qed

end
